theory Spec2Isabelle
  imports Complex_Main "HOL-Library.AList" "HOL-Library.Log_Nat" "HOL-Library.Word"
begin

section \<open>JavaScript strings and values\<close>

text \<open>
  A JavaScript string is modelled as a \<^typ>\<open>string\<close> whose characters are the code units
  below 256 (ASCII and Latin-1); strings with other code units are outside the model.
  On this range \<open>String.prototype.trim\<close> and the regular expression class \<open>\s\<close> agree:
  TAB, LF, VT, FF, CR, SPACE and NBSP.
\<close>

definition isWhiteSpace :: "char \<Rightarrow> bool" where
  "isWhiteSpace c = (of_char c \<in> {9, 10, 11, 12, 13, 32, 160 :: nat})"

definition trim :: "string \<Rightarrow> string" where
  "trim s = rev (dropWhile isWhiteSpace (rev (dropWhile isWhiteSpace s)))"

text \<open>\<open>toLowerCase\<close> on code units below 256: A-Z, and the Latin-1 capitals except the
  multiplication sign, move up by 32.\<close>

definition lowerChar :: "char \<Rightarrow> char" where
  "lowerChar c =
     (let n = (of_char c :: nat) in
      if (65 \<le> n \<and> n \<le> 90) \<or> (192 \<le> n \<and> n \<le> 222 \<and> n \<noteq> 215)
      then char_of (n + 32) else c)"

definition toLowerCase :: "string \<Rightarrow> string" where
  "toLowerCase s = map lowerChar s"

fun startsWith :: "string \<Rightarrow> string \<Rightarrow> bool" where
  "startsWith s [] = True"
| "startsWith [] (p # ps) = False"
| "startsWith (c # cs) (p # ps) = (c = p \<and> startsWith cs ps)"

text \<open>\<open>s.includes(sub)\<close>: \<open>sub\<close> occurs in \<open>s\<close> as a contiguous run.\<close>

fun includesStr :: "string \<Rightarrow> string \<Rightarrow> bool" where
  "includesStr [] sub = (sub = [])"
| "includesStr (c # cs) sub = (startsWith (c # cs) sub \<or> includesStr cs sub)"

text \<open>\<open>s.split(sep)\<close> for a one-character separator: never empty, \<open>''.split(';')\<close> is
  \<open>['']\<close>.\<close>

fun split :: "char \<Rightarrow> string \<Rightarrow> string list" where
  "split sep [] = [[]]"
| "split sep (c # cs) =
     (if c = sep then [] # split sep cs
      else (case split sep cs of [] \<Rightarrow> [[c]] | x # xs \<Rightarrow> (c # x) # xs))"

text \<open>\<open>s.replace(/\s+/g, ' ')\<close>: every maximal run of white space becomes one space.\<close>

function collapseWhiteSpace :: "string \<Rightarrow> string" where
  "collapseWhiteSpace [] = []"
| "collapseWhiteSpace (c # cs) =
     (if isWhiteSpace c then CHR '' '' # collapseWhiteSpace (dropWhile isWhiteSpace cs)
      else c # collapseWhiteSpace cs)"
  by pat_completeness auto
termination
  by (relation "measure length") (auto simp: le_imp_less_Suc length_dropWhile_le)

text \<open>\<open>xs.join(sep)\<close>.\<close>

fun join :: "string \<Rightarrow> string list \<Rightarrow> string" where
  "join sep [] = []"
| "join sep [x] = x"
| "join sep (x # y # ys) = x @ sep @ join sep (y # ys)"

text \<open>
  The values a property bag can hold (\<open>Record<string, any>\<close>): \<open>undefined\<close>, \<open>null\<close>,
  booleans, numbers, strings, arrays of strings (a multi-select field as a native list)
  and other objects.

  A number is an integer from \<open>-2^53\<close> to \<open>2^53 - 1\<close>, kept as the signed reading of a
  54-bit word: a double holds each of them exactly and \<open>String\<close> prints each in plain
  decimal. Fractions, larger numbers, \<open>NaN\<close> and the infinities are outside the model.

  An object that is not an array, or a function, is only ever tested for truthiness and
  converted to a string by the code, so it is kept as the text that \<open>String\<close> gives for it.
  Arrays with items that are not strings are outside the model.
\<close>

datatype jsval =
    JUndefined
  | JNull
  | JBool bool
  | JNum "54 word"
  | JStr string
  | JArr "string list"
  | JObject string

text \<open>Truthiness, as \<open>if (v)\<close> and \<open>v ? a : b\<close> test it: an array is truthy even when empty.\<close>

fun truthy :: "jsval \<Rightarrow> bool" where
  "truthy JUndefined = False"
| "truthy JNull = False"
| "truthy (JBool b) = b"
| "truthy (JNum n) = (n \<noteq> 0)"
| "truthy (JStr s) = (s \<noteq> [])"
| "truthy (JArr xs) = True"
| "truthy (JObject text) = True"

function digitsOf :: "nat \<Rightarrow> string" where
  "digitsOf n = (if n < 10 then [char_of (48 + n)] else digitsOf (n div 10) @ [char_of (48 + n mod 10)])"
  by pat_completeness auto
termination
  by (relation "measure id") auto

text \<open>\<open>String(v)\<close>.\<close>

fun String :: "jsval \<Rightarrow> string" where
  "String JUndefined = ''undefined''"
| "String JNull = ''null''"
| "String (JBool b) = (if b then ''true'' else ''false'')"
| "String (JNum n) =
     (if sint n < 0 then CHR ''-'' # digitsOf (nat (- sint n)) else digitsOf (nat (sint n)))"
| "String (JStr s) = s"
| "String (JArr xs) = join '','' xs"
| "String (JObject text) = text"

section \<open>The document catalog\<close>

text \<open>\<open>interface DocumentCondition\<close>. The operator is read from the JSON catalog, so it is
  any string; the evaluator switches on it.\<close>

record DocumentCondition =
  property :: string
  operator :: string
  "value" :: string

text \<open>\<open>interface TabConfig\<close>. A missing \<open>conditions\<close> entry is read as the empty list
  everywhere the code reads it (\<open>|| []\<close>, \<open>if (config.conditions)\<close>).\<close>

record TabConfig =
  order :: int
  conditions :: "DocumentCondition list"

text \<open>\<open>interface DocumentConfig\<close>, an entry of the catalog \<open>DOCUMENTS_CONFIG\<close>. \<open>tabConfig\<close>
  is an object keyed by view id; the association list keeps the order in which
  \<open>Object.values\<close> and \<open>Object.entries\<close> enumerate it.\<close>

record DocumentConfig =
  docId :: string
  name :: string
  requiredProperty :: string
  providedProperty :: string
  tabConfig :: "(string \<times> TabConfig) list"

text \<open>\<open>interface Document\<close>: the catalog entry with its two flags.\<close>

record Document = DocumentConfig +
  required :: bool
  provided :: bool

definition INITIAL_DOCUMENTS :: "DocumentConfig list \<Rightarrow> Document list" where
  "INITIAL_DOCUMENTS DOCUMENTS_CONFIG =
     map (\<lambda>config. DocumentConfig.extend config \<lparr>required = False, provided = False\<rparr>)
       DOCUMENTS_CONFIG"

text \<open>A property bag, \<open>Record<string, any>\<close>: the own keys of a plain object with their
  values, \<open>Object.keys\<close> in list order.\<close>

type_synonym bag = "(string \<times> jsval) list"

text \<open>
  A plain object inherits the members of \<open>Object.prototype\<close>, which \<open>obj[key]\<close> and
  \<open>key in obj\<close> also find: eleven functions and the accessor \<open>__proto__\<close>, which reads as
  \<open>Object.prototype\<close> itself. The text of a built-in function is written as V8 prints it;
  other engines differ in the white space between the braces.
\<close>

definition nativeFunction :: "string \<Rightarrow> jsval" where
  "nativeFunction fname = JObject (''function '' @ fname @ ''() { [native code] }'')"

definition objectPrototype :: bag where
  "objectPrototype =
     (''constructor'', nativeFunction ''Object'')
     # (''__proto__'', JObject ''[object Object]'')
     # map (\<lambda>fname. (fname, nativeFunction fname))
         [''__defineGetter__'', ''__defineSetter__'', ''__lookupGetter__'', ''__lookupSetter__'',
          ''hasOwnProperty'', ''isPrototypeOf'', ''propertyIsEnumerable'', ''toLocaleString'',
          ''toString'', ''valueOf'']"

definition inheritedNames :: "string list" where
  "inheritedNames = map fst objectPrototype"

text \<open>\<open>properties[k]\<close>: the own value, else the inherited one, else \<open>undefined\<close>.\<close>

definition getProp :: "bag \<Rightarrow> string \<Rightarrow> jsval" where
  "getProp properties k =
     (case map_of properties k of
        Some v \<Rightarrow> v
      | None \<Rightarrow> (case map_of objectPrototype k of None \<Rightarrow> JUndefined | Some v \<Rightarrow> v))"

text \<open>\<open>doc.tabConfig && tabId in doc.tabConfig\<close>; \<open>tabConfig\<close> is never missing, \<open>INITIAL_DOCUMENTS\<close>
  puts \<open>{}\<close> for it. The operator \<open>in\<close> also finds the inherited members.\<close>

definition documentBelongsToTab :: "'a DocumentConfig_scheme \<Rightarrow> string \<Rightarrow> bool" where
  "documentBelongsToTab doc tabId =
     (map_of (tabConfig doc) tabId \<noteq> None \<or> tabId \<in> set inheritedNames)"

text \<open>\<open>doc.tabConfig?.[tabId]?.order ?? 9999\<close> and \<open>doc.tabConfig?.[tabId]?.conditions || []\<close>.
  Under an inherited name \<open>tabConfig[tabId]\<close> is a built-in function or \<open>Object.prototype\<close>,
  which have neither \<open>order\<close> nor \<open>conditions\<close>: the result is that of a missing view.\<close>

definition getOrderForTab :: "'a DocumentConfig_scheme \<Rightarrow> string \<Rightarrow> int" where
  "getOrderForTab doc tabId =
     (case map_of (tabConfig doc) tabId of None \<Rightarrow> 9999 | Some cfg \<Rightarrow> order cfg)"

definition getConditionsForTab :: "'a DocumentConfig_scheme \<Rightarrow> string \<Rightarrow> DocumentCondition list" where
  "getConditionsForTab doc tabId =
     (case map_of (tabConfig doc) tabId of None \<Rightarrow> [] | Some cfg \<Rightarrow> conditions cfg)"

definition getAllConditions :: "'a DocumentConfig_scheme \<Rightarrow> DocumentCondition list" where
  "getAllConditions doc = concat (map (\<lambda>(tabId, cfg). conditions cfg) (tabConfig doc))"

section \<open>The condition evaluator\<close>

text \<open>\<open>normalizeForComparison\<close>, local to the \<open>in\<close> case.\<close>

definition normalizeForComparison :: "string \<Rightarrow> string" where
  "normalizeForComparison str = collapseWhiteSpace (trim str)"

text \<open>The lookup at the head of \<open>evaluateCondition\<close>: \<open>properties[condition.property]\<close>, own
  or inherited, and when that reads \<open>undefined\<close> the first own key equal to the property
  up to case (a found key that is the empty string is falsy and is not used).\<close>

definition lookupProperty :: "bag \<Rightarrow> string \<Rightarrow> jsval" where
  "lookupProperty properties p =
     (let propertyValue = getProp properties p in
      if propertyValue = JUndefined then
        (case find (\<lambda>k. toLowerCase k = toLowerCase p) (map fst properties) of
           None \<Rightarrow> propertyValue
         | Some foundKey \<Rightarrow> if foundKey \<noteq> [] then getProp properties foundKey else propertyValue)
      else propertyValue)"

definition evaluateIn :: "jsval \<Rightarrow> string \<Rightarrow> string \<Rightarrow> bool" where
  "evaluateIn propertyValue propValueStr conditionValue =
     (if \<not> truthy propertyValue \<or> propValueStr = [] then False
      else
        let normalizedConditionValue = trim conditionValue;
            normalizedPropertyValue = trim propValueStr
        in case propertyValue of
             JArr vals \<Rightarrow> list_ex (\<lambda>val. trim val = normalizedConditionValue) vals
           | _ \<Rightarrow>
             (let normalizedCondition = normalizeForComparison normalizedConditionValue in
              if includesStr normalizedPropertyValue '';'' then
                list_ex (\<lambda>val. val = normalizedCondition)
                  (filter (\<lambda>v. v \<noteq> [])
                    (map normalizeForComparison (split CHR '';'' normalizedPropertyValue)))
              else if includesStr normalizedPropertyValue '','' then
                list_ex (\<lambda>val. val = normalizedCondition)
                  (filter (\<lambda>v. v \<noteq> [])
                    (map normalizeForComparison (split CHR '','' normalizedPropertyValue)))
              else normalizeForComparison normalizedPropertyValue = normalizedCondition))"

definition evaluateCondition :: "DocumentCondition \<Rightarrow> bag \<Rightarrow> bool" where
  "evaluateCondition condition properties =
     (let propertyValue = lookupProperty properties (property condition);
          propValueStr = (if truthy propertyValue then trim (String propertyValue) else []);
          conditionValue = trim (value condition)
      in if operator condition = ''equals'' then propValueStr = conditionValue
         else if operator condition = ''not_equals'' then propValueStr \<noteq> conditionValue
         else if operator condition = ''contains'' then
           includesStr (toLowerCase propValueStr) (toLowerCase conditionValue)
         else if operator condition = ''not_contains'' then
           \<not> includesStr (toLowerCase propValueStr) (toLowerCase conditionValue)
         else if operator condition = ''in'' then
           evaluateIn propertyValue propValueStr conditionValue
         else True)"

section \<open>The requirement resolver\<close>

text \<open>The \<open>Map\<close> built by \<open>checkDocumentConditions\<close>: one entry per property name, in order
  of first appearance, each holding its conditions in catalog order.\<close>

fun pushCondition ::
  "DocumentCondition \<Rightarrow> (string \<times> DocumentCondition list) list
   \<Rightarrow> (string \<times> DocumentCondition list) list" where
  "pushCondition c [] = [(property c, [c])]"
| "pushCondition c ((k, cs) # rest) =
     (if k = property c then (k, cs @ [c]) # rest else (k, cs) # pushCondition c rest)"

definition conditionsByProperty ::
  "DocumentCondition list \<Rightarrow> (string \<times> DocumentCondition list) list" where
  "conditionsByProperty conds = foldl (\<lambda>m c. pushCondition c m) [] conds"

text \<open>\<open>checkDocumentConditions(doc, properties, tabId?)\<close>. The optional \<open>tabId\<close> is tested
  for truthiness: \<open>undefined\<close>, \<open>null\<close> and the empty string select the pooled conditions.\<close>

definition checkDocumentConditions ::
  "'a DocumentConfig_scheme \<Rightarrow> bag \<Rightarrow> string option \<Rightarrow> bool" where
  "checkDocumentConditions doc properties tabId =
     (let conds = (case tabId of
                     None \<Rightarrow> getAllConditions doc
                   | Some t \<Rightarrow> if t \<noteq> [] then getConditionsForTab doc t else getAllConditions doc)
      in if conds = [] then True
         else list_all (\<lambda>(p, propConditions).
                 list_ex (\<lambda>condition. evaluateCondition condition properties) propConditions)
               (conditionsByProperty conds))"

definition toBool :: "jsval \<Rightarrow> bool" where
  "toBool v =
     (case v of
        JBool b \<Rightarrow> b
      | JNull \<Rightarrow> False
      | JUndefined \<Rightarrow> False
      | JStr s \<Rightarrow>
          (if s = [] then False
           else let lower = trim (toLowerCase s)
                in if lower = ''true'' \<or> lower = ''1'' \<or> lower = ''yes'' \<or> lower = ''oui''
                   then True else False)
      | JNum n \<Rightarrow> n \<noteq> 0
      | JArr xs \<Rightarrow> True
      | JObject text \<Rightarrow> True)"

text \<open>\<open>getPropValue\<close>, local to \<open>fetchDocumentValues\<close>: the value under the first key that
  equals or contains the needle, up to case.\<close>

definition getPropValue :: "bag \<Rightarrow> string \<Rightarrow> jsval" where
  "getPropValue obj needle =
     (let lower = toLowerCase needle in
      case find (\<lambda>k. toLowerCase k = lower \<or> includesStr (toLowerCase k) lower) (map fst obj) of
        None \<Rightarrow> JUndefined
      | Some hitKey \<Rightarrow> if hitKey \<noteq> [] then getProp obj hitKey else JUndefined)"

text \<open>The category value \<open>nd\<close> that \<open>fetchDocumentValues\<close> reads, in its three attempts,
  then \<open>(nd || '').toString().trim()\<close>.\<close>

definition fetchNatureDemande :: "bag \<Rightarrow> string" where
  "fetchNatureDemande properties =
     (let nd1 = getProp properties ''sous_categorie'';
          nd2 = (if \<not> truthy nd1 then getPropValue properties ''sous_categorie'' else nd1);
          nd3 = (if \<not> truthy nd2 then
                   (case filter (\<lambda>k. includesStr (toLowerCase k) ''sous''
                                    \<and> includesStr (toLowerCase k) ''categorie'')
                           (map fst properties) of
                      [] \<Rightarrow> nd2
                    | k # ks \<Rightarrow> getProp properties k)
                 else nd2)
      in trim (if truthy nd3 then String nd3 else []))"

text \<open>\<open>properties['sous_categorie'] = nd\<close> when \<open>nd\<close> is not empty: the bag against which the
  documents are then resolved.\<close>

definition fetchProperties :: "bag \<Rightarrow> bag" where
  "fetchProperties response =
     (let nd = fetchNatureDemande response in
      if nd \<noteq> [] then AList.update ''sous_categorie'' (JStr nd) response else response)"

text \<open>What the callback of \<open>INITIAL_DOCUMENTS.map\<close> returns: the document with its two flags
  and the two bookkeeping fields \<open>_requiredFromHubSpot\<close> and \<open>_shouldBeRequired\<close>.\<close>

record FetchedDocument = Document +
  requiredFromHubSpot :: bool
  shouldBeRequired :: bool

definition resolveDocument :: "bag \<Rightarrow> Document \<Rightarrow> FetchedDocument" where
  "resolveDocument properties doc =
     (let requiredRaw = getProp properties (requiredProperty doc);
          providedRaw = getProp properties (providedProperty doc);
          requiredFromHubSpot = toBool requiredRaw;
          provided = toBool providedRaw;
          conditionsMet = checkDocumentConditions doc properties None;
          hasConditions = (length (getAllConditions doc) > 0);
          required =
            (if hasConditions then
               (if conditionsMet then True
                else if provided then requiredFromHubSpot
                else False)
             else requiredFromHubSpot)
      in Document.extend (doc\<lparr>required := required, provided := provided\<rparr>)
           \<lparr>requiredFromHubSpot = requiredFromHubSpot,
            shouldBeRequired =
              (if hasConditions then (if conditionsMet then True else requiredFromHubSpot)
               else requiredFromHubSpot)\<rparr>)"

text \<open>
  \<open>updatedDocuments\<close> of \<open>fetchDocumentValues\<close>, from the catalog, the object id of the
  context, the flag \<open>hasConfigError\<close> and the response of \<open>getDocumentValues\<close>. Three guards
  return before the documents are resolved, and the documents of the component then stay
  as they were, here \<open>None\<close>: no object id, a known configuration error, and a response
  with a truthy \<open>error\<close> member (when that member is not a string \<open>errorMsg.includes\<close> may
  throw; the \<open>catch\<close> reports it and the documents stay as well). A request that throws
  has no response: the \<open>catch\<close> reports it, and the documents stay too.
\<close>

definition fetchDocumentValues ::
  "DocumentConfig list \<Rightarrow> jsval \<Rightarrow> bool \<Rightarrow> bag \<Rightarrow> FetchedDocument list option" where
  "fetchDocumentValues DOCUMENTS_CONFIG objectId hasConfigError response =
     (if \<not> truthy objectId then None
      else if hasConfigError then None
      else if truthy (getProp response ''error'') then None
      else Some (map (resolveDocument (fetchProperties response))
                   (INITIAL_DOCUMENTS DOCUMENTS_CONFIG)))"

section \<open>The completion calculator\<close>

datatype DossierState = TO_BUILD | INCOMPLETE | COMPLETE

definition checkCompletion :: "'a Document_scheme list \<Rightarrow> bool" where
  "checkCompletion docs =
     (find (\<lambda>doc. required doc \<and> \<not> provided doc) docs = None
      \<and> list_ex (\<lambda>doc. required doc) docs)"

definition calculateDossierState :: "'a Document_scheme list \<Rightarrow> DossierState" where
  "calculateDossierState docs =
     (let hasRequiredDocs = list_ex (\<lambda>doc. required doc) docs in
      if \<not> hasRequiredDocs then TO_BUILD
      else
        let anyProvided = list_ex (\<lambda>doc. provided doc) docs in
        if anyProvided then
          (let allRequiredProvided = (\<not> list_ex (\<lambda>doc. required doc \<and> \<not> provided doc) docs)
           in if allRequiredProvided then COMPLETE else INCOMPLETE)
        else TO_BUILD)"

section \<open>Manual toggling\<close>

datatype Field = FieldRequired | FieldProvided

text \<open>The callback of \<open>prevDocs.map\<close> in \<open>handleCheckboxToggle\<close>.\<close>

definition toggleDocument ::
  "bag \<Rightarrow> string \<Rightarrow> string \<Rightarrow> Field \<Rightarrow> bool \<Rightarrow> 'a Document_scheme \<Rightarrow> 'a Document_scheme" where
  "toggleDocument recordProperties selectedTab documentId field checked doc =
     (if docId doc = documentId then
        (case field of
           FieldRequired \<Rightarrow>
             (let conditionsMet = checkDocumentConditions doc recordProperties None;
                  hasConditions = (length (getAllConditions doc) > 0);
                  isAutreTab = (selectedTab = ''autre'')
              in if hasConditions \<and> \<not> isAutreTab then
                   (if conditionsMet \<and> \<not> checked then doc
                    else if \<not> conditionsMet \<and> checked then doc
                    else doc\<lparr>required := conditionsMet\<rparr>)
                 else doc\<lparr>required := checked\<rparr>)
         | FieldProvided \<Rightarrow> doc\<lparr>provided := checked\<rparr>)
      else doc)"

text \<open>The part of the component state that \<open>handleCheckboxToggle\<close> and \<open>getVisibleDocuments\<close>
  read and write.\<close>

record 'a ExtensionState =
  documents :: "'a Document_scheme list"
  initialDocuments :: "'a Document_scheme list"
  recordProperties :: bag
  selectedTab :: string
  searchTerm :: string
  natureDemande :: string
  isCompleted :: bool
  dossierState :: DossierState
  initialCompletionStatus :: bool
  initialDossierState :: DossierState
  isChanged :: bool

text \<open>\<open>newDocs.some((currentDoc, index) => ...)\<close> against \<open>initialDocuments[index]\<close>.\<close>

fun documentsChanged :: "'a Document_scheme list \<Rightarrow> 'a Document_scheme list \<Rightarrow> bool" where
  "documentsChanged [] initial = False"
| "documentsChanged (currentDoc # rest) [] = True"
| "documentsChanged (currentDoc # rest) (initialDoc # initialRest) =
     (required currentDoc \<noteq> required initialDoc \<or> provided currentDoc \<noteq> provided initialDoc
      \<or> documentsChanged rest initialRest)"

definition handleCheckboxToggle ::
  "string \<Rightarrow> Field \<Rightarrow> bool \<Rightarrow> 'a ExtensionState \<Rightarrow> 'a ExtensionState" where
  "handleCheckboxToggle documentId field checked st =
     (let newDocs = map (toggleDocument (recordProperties st) (selectedTab st) documentId field checked)
                      (documents st);
          newCompletionStatus = checkCompletion newDocs;
          newDossierState = calculateDossierState newDocs;
          completionChanged = (newCompletionStatus \<noteq> initialCompletionStatus st);
          dossierStateChanged = (newDossierState \<noteq> initialDossierState st)
      in st\<lparr>documents := newDocs,
            isCompleted := newCompletionStatus,
            dossierState := newDossierState,
            isChanged := (completionChanged \<or> dossierStateChanged
                          \<or> documentsChanged newDocs (initialDocuments st))\<rparr>)"

section \<open>The view router\<close>

text \<open>\<open>normalize\<close>, local to \<open>getTabForNatureDemande\<close>.\<close>

definition normalizeStr :: "string \<Rightarrow> string" where
  "normalizeStr str = collapseWhiteSpace (trim str)"

definition isNatureCondition :: "string \<Rightarrow> DocumentCondition \<Rightarrow> bool" where
  "isNatureCondition normalizedValue condition =
     (property condition = ''sous_categorie'' \<and> operator condition = ''equals''
      \<and> normalizeStr (value condition) = normalizedValue)"

text \<open>The inner loop over \<open>Object.entries(doc.tabConfig)\<close>: the first view with a matching
  condition.\<close>

fun scanTabConfig :: "string \<Rightarrow> (string \<times> TabConfig) list \<Rightarrow> string option" where
  "scanTabConfig normalizedValue [] = None"
| "scanTabConfig normalizedValue ((tabId, cfg) # rest) =
     (if list_ex (isNatureCondition normalizedValue) (conditions cfg) then Some tabId
      else scanTabConfig normalizedValue rest)"

text \<open>The outer loop over \<open>DOCUMENTS_CONFIG\<close>.\<close>

fun scanCatalog :: "string \<Rightarrow> 'a DocumentConfig_scheme list \<Rightarrow> string option" where
  "scanCatalog normalizedValue [] = None"
| "scanCatalog normalizedValue (doc # rest) =
     (case scanTabConfig normalizedValue (tabConfig doc) of
        Some tabId \<Rightarrow> Some tabId
      | None \<Rightarrow> scanCatalog normalizedValue rest)"

text \<open>\<open>getTabForNatureDemande\<close>; \<open>None\<close> is \<open>null\<close>.\<close>

definition getTabForNatureDemande :: "'a DocumentConfig_scheme list \<Rightarrow> string \<Rightarrow> string option" where
  "getTabForNatureDemande DOCUMENTS_CONFIG natureDemandeValue =
     (if natureDemandeValue = [] then None
      else scanCatalog (normalizeStr natureDemandeValue) DOCUMENTS_CONFIG)"

definition getActiveTabId :: "'a DocumentConfig_scheme list \<Rightarrow> string \<Rightarrow> string option" where
  "getActiveTabId DOCUMENTS_CONFIG natureDemandeValue =
     (if natureDemandeValue = [] then None
      else getTabForNatureDemande DOCUMENTS_CONFIG natureDemandeValue)"

section \<open>The visibility filter\<close>

text \<open>A view id tested for truthiness (\<open>activeTabId && ...\<close>, \<open>activeTabId || undefined\<close>).\<close>

definition truthyTab :: "string option \<Rightarrow> bool" where
  "truthyTab t = (case t of None \<Rightarrow> False | Some x \<Rightarrow> x \<noteq> [])"

definition propsForConditions :: "bag \<Rightarrow> string \<Rightarrow> bag" where
  "propsForConditions properties natureDemandeValue =
     (if natureDemandeValue \<noteq> [] \<and> \<not> truthy (getProp properties ''sous_categorie'')
      then AList.update ''sous_categorie'' (JStr natureDemandeValue) properties
      else properties)"

text \<open>The callback of \<open>documents.filter\<close> in \<open>getVisibleDocuments\<close>.\<close>

definition isVisible ::
  "string option \<Rightarrow> bag \<Rightarrow> string \<Rightarrow> 'a Document_scheme \<Rightarrow> bool" where
  "isVisible activeTabId props tab doc =
     (let conditionsMet =
            checkDocumentConditions doc props (if truthyTab activeTabId then activeTabId else None)
      in if tab = ''autre'' then
           (if required doc \<or> provided doc then
              (if conditionsMet \<and> truthyTab activeTabId
                  \<and> documentBelongsToTab doc (the activeTabId)
               then False else True)
            else if \<not> truthyTab activeTabId then False
            else if \<not> documentBelongsToTab doc (the activeTabId) then False
            else \<not> conditionsMet)
         else
           (let tabToCheck = (if truthyTab activeTabId \<and> Some tab = activeTabId
                              then the activeTabId else tab)
            in if \<not> documentBelongsToTab doc tabToCheck then False
               else conditionsMet \<or> (required doc \<and> provided doc)))"

definition getVisibleDocuments ::
  "'b DocumentConfig_scheme list \<Rightarrow> 'a ExtensionState \<Rightarrow> 'a Document_scheme list" where
  "getVisibleDocuments DOCUMENTS_CONFIG st =
     (if documents st = [] then []
      else
        let activeTabId = getActiveTabId DOCUMENTS_CONFIG (natureDemande st);
            props = propsForConditions (recordProperties st) (natureDemande st);
            visible = filter (isVisible activeTabId props (selectedTab st)) (documents st);
            filtered = (if trim (searchTerm st) \<noteq> []
                        then filter (\<lambda>doc. includesStr (toLowerCase (name doc))
                                             (toLowerCase (searchTerm st))) visible
                        else visible)
        in sort_key (\<lambda>doc. getOrderForTab doc (selectedTab st)) filtered)"

section \<open>Progress\<close>

text \<open>
  \<open>Math.round((providedCount / requiredCount) * 100)\<close> is computed on IEEE 754 doubles.
  A positive finite double is modelled by a pair \<open>(m, n)\<close> standing for \<open>m / 2 ^ n\<close>; the
  quotient and the product are each rounded to 53 significant bits, to nearest, ties to
  even. The counts are array lengths, far below \<open>2 ^ 53\<close>, so they are exact doubles, and
  with \<open>providedCount \<le> requiredCount\<close> no exponent leaves the normal range.
\<close>

type_synonym double = "nat \<times> nat"

text \<open>The real number a modelled double stands for.\<close>

definition valueOf :: "double \<Rightarrow> real" where
  "valueOf x = real (fst x) / 2 ^ snd x"

text \<open>The integer nearest to \<open>a / b\<close>, ties to the even one.\<close>

definition roundHalfEven :: "nat \<Rightarrow> nat \<Rightarrow> nat" where
  "roundHalfEven a b =
     (let d = a div b; r = a mod b
      in if 2 * r < b then d
         else if b < 2 * r then d + 1
         else if even d then d else d + 1)"

text \<open>\<open>p / r\<close> for \<open>0 < p \<le> r\<close>: the scale \<open>n\<close> puts \<open>p * 2 ^ n / r\<close> in \<open>[2 ^ 52, 2 ^ 53)\<close>.\<close>

definition divideDouble :: "nat \<Rightarrow> nat \<Rightarrow> double" where
  "divideDouble p r =
     (let n0 = nat (52 + bitlen (int r) - bitlen (int p));
          n = (if 2 ^ 52 * r \<le> p * 2 ^ n0 then n0 else n0 + 1)
      in (roundHalfEven (p * 2 ^ n) r, n))"

text \<open>\<open>x * 100\<close>: the exact product \<open>100 * m / 2 ^ n\<close>, rounded to 53 bits.\<close>

definition times100 :: "double \<Rightarrow> double" where
  "times100 x =
     (case x of (m, n) \<Rightarrow>
        let k = nat (bitlen (int (100 * m)) - 53);
            m' = roundHalfEven (100 * m) (2 ^ k)
        in if k \<le> n then (m', n - k) else (m' * 2 ^ (k - n), 0))"

text \<open>\<open>Math.round(x)\<close>: \<open>floor(x + 1/2)\<close>, exactly.\<close>

definition mathRound :: "double \<Rightarrow> nat" where
  "mathRound x = (case x of (m, n) \<Rightarrow> (2 * m + 2 ^ n) div 2 ^ (n + 1))"

text \<open>\<open>requiredCount > 0 ? Math.round((providedCount / requiredCount) * 100) : 100\<close>. A zero
  \<open>providedCount\<close> gives the double \<open>0\<close> at each step.\<close>

definition percentageOf :: "nat \<Rightarrow> nat \<Rightarrow> nat" where
  "percentageOf providedCount requiredCount =
     (if requiredCount > 0 then
        (if providedCount = 0 then 0
         else mathRound (times100 (divideDouble providedCount requiredCount)))
      else 100)"

text \<open>The result object \<open>{ provided, required, percentage }\<close> of \<open>calculateProgress\<close>; its
  first two fields are named \<open>providedCount\<close> and \<open>requiredCount\<close> here.\<close>

record Progress =
  providedCount :: nat
  requiredCount :: nat
  percentage :: nat

text \<open>The callback of \<open>docs.filter\<close> in \<open>calculateProgress\<close>.\<close>

definition countsAsRequired :: "bag \<Rightarrow> 'a Document_scheme \<Rightarrow> bool" where
  "countsAsRequired properties doc =
     (if required doc then True
      else let hasConditions = (length (getAllConditions doc) > 0)
           in if hasConditions then checkDocumentConditions doc properties None
              else False)"

definition calculateProgress :: "bag \<Rightarrow> 'a Document_scheme list \<Rightarrow> Progress" where
  "calculateProgress properties docs =
     (let requiredDocs = filter (countsAsRequired properties) docs;
          providedDocs = filter (\<lambda>doc. provided doc) requiredDocs
      in \<lparr>providedCount = length providedDocs,
          requiredCount = length requiredDocs,
          percentage = percentageOf (length providedDocs) (length requiredDocs)\<rparr>)"

section \<open>An example catalog\<close>

text \<open>One document with two views, and a record of category \<open>Decret\<close> domiciled in Morocco.\<close>

definition exampleConfig :: DocumentConfig where
  "exampleConfig =
     \<lparr>docId = ''acte_naissance'', name = ''Acte de naissance'',
      requiredProperty = ''acte_naissance_required'',
      providedProperty = ''acte_naissance_provided'',
      tabConfig =
        [(''decret'', \<lparr>order = 1, conditions =
            [\<lparr>property = ''sous_categorie'', operator = ''equals'', value = ''Decret''\<rparr>,
             \<lparr>property = ''domicile__'', operator = ''equals'', value = ''France''\<rparr>,
             \<lparr>property = ''domicile__'', operator = ''equals'', value = ''Maroc''\<rparr>]\<rparr>),
         (''fraterie'', \<lparr>order = 2, conditions =
            [\<lparr>property = ''sous_categorie'', operator = ''equals'', value = ''Fratrie''\<rparr>]\<rparr>)]\<rparr>"

definition exampleBag :: bag where
  "exampleBag =
     [(''sous_categorie'', JStr ''Decret''), (''domicile__'', JStr ''Maroc''),
      (''acte_naissance_required'', JStr ''false''), (''acte_naissance_provided'', JStr ''true'')]"

text \<open>The example document flagged required and provided, shown in the view \<open>decret\<close>; and
  the same state after the record's domicile changed, so that the view's conditions no
  longer hold.\<close>

definition exampleDocument :: Document where
  "exampleDocument = DocumentConfig.extend exampleConfig \<lparr>required = True, provided = True\<rparr>"

definition exampleState :: "unit ExtensionState" where
  "exampleState =
     \<lparr>documents = [exampleDocument], initialDocuments = [exampleDocument],
      recordProperties = exampleBag, selectedTab = ''decret'', searchTerm = [],
      natureDemande = ''Decret'', isCompleted = True, dossierState = COMPLETE,
      initialCompletionStatus = True, initialDossierState = COMPLETE, isChanged = False\<rparr>"

definition driftedBag :: bag where
  "driftedBag =
     [(''sous_categorie'', JStr ''Decret''), (''domicile__'', JStr ''Espagne''),
      (''acte_naissance_required'', JStr ''true''), (''acte_naissance_provided'', JStr ''true'')]"

definition driftedState :: "unit ExtensionState" where
  "driftedState = exampleState\<lparr>recordProperties := driftedBag\<rparr>"

text \<open>The example document with its conditions met and neither flag set, as after the
  required flag was cleared by hand in the overflow view.\<close>

definition unflaggedDocument :: Document where
  "unflaggedDocument = DocumentConfig.extend exampleConfig \<lparr>required = False, provided = False\<rparr>"

section \<open>Multi-value fields, as the specification reads them\<close>

text \<open>\<open>trimEnd\<close> is the second half of \<^const>\<open>trim\<close>.\<close>

definition trimEnd :: "string \<Rightarrow> string" where
  "trimEnd s = rev (dropWhile isWhiteSpace (rev s))"

text \<open>
  The items of a bag value in each of its representations, following the wording of the
  specification and not the code: a native list holds its items; a string holding \<open>;\<close> is
  split on \<open>;\<close>, else a string holding \<open>,\<close> is split on \<open>,\<close>, else it is one item. The
  item set is the set of the trimmed, whitespace-collapsed items that are not empty.
\<close>

fun specItems :: "jsval \<Rightarrow> string list" where
  "specItems (JArr xs) = xs"
| "specItems (JStr s) =
     (if CHR '';'' \<in> set s then split CHR '';'' s
      else if CHR '','' \<in> set s then split CHR '','' s
      else [s])"
| "specItems v = []"

definition specItemSet :: "jsval \<Rightarrow> string set" where
  "specItemSet v = set (filter (\<lambda>x. x \<noteq> []) (map normalizeForComparison (specItems v)))"

text \<open>A native list whose items, like the condition value, hold no white space to
  collapse (trimming alone normalises them), compared against a condition value that is
  not blank.\<close>

definition collapsedList :: "DocumentCondition \<Rightarrow> string list \<Rightarrow> bool" where
  "collapsedList c xs =
     (trim (value c) \<noteq> [] \<and> normalizeForComparison (value c) = trim (value c)
      \<and> list_all (\<lambda>x. normalizeForComparison x = trim x) xs)"

text \<open>The representations the invariance is stated for: any string, and a native list
  that is already collapsed.\<close>

fun collapsedRepresentation :: "DocumentCondition \<Rightarrow> jsval \<Rightarrow> bool" where
  "collapsedRepresentation c (JStr s) = True"
| "collapsedRepresentation c (JArr xs) = collapsedList c xs"
| "collapsedRepresentation c v = False"

section \<open>The view router of the flat catalog\<close>

text \<open>
  The second version of the component reads a flat catalog: a document has a \<open>tab\<close>
  (here \<open>flatTab\<close>), one
  view id or an array of them, and one list of conditions.
\<close>

datatype TabSpec = OneTab string | TabArray "string list"

record FlatDocumentConfig =
  flatId :: string
  flatName :: string
  flatTab :: TabSpec
  flatConditions :: "DocumentCondition list"

text \<open>\<open>getTabValue\<close>: \<open>tab[0]\<close> of an empty array is \<open>undefined\<close>, here \<open>None\<close>.\<close>

fun getTabValue :: "TabSpec \<Rightarrow> string option" where
  "getTabValue (OneTab t) = Some t"
| "getTabValue (TabArray []) = None"
| "getTabValue (TabArray (t # ts)) = Some t"

text \<open>\<open>Array.isArray(doc.tab) ? doc.tab : [doc.tab]\<close>.\<close>

fun tabsOf :: "TabSpec \<Rightarrow> string list" where
  "tabsOf (OneTab t) = [t]"
| "tabsOf (TabArray ts) = ts"

definition isMatchingDoc :: "string \<Rightarrow> 'a FlatDocumentConfig_scheme \<Rightarrow> bool" where
  "isMatchingDoc normalizedValue doc =
     (if flatConditions doc = [] then False
      else list_ex (isNatureCondition normalizedValue) (flatConditions doc))"

definition hasSingleCondition :: "'a FlatDocumentConfig_scheme \<Rightarrow> bool" where
  "hasSingleCondition doc =
     (length (filter (\<lambda>c. property c = ''sous_categorie'' \<and> operator c = ''equals'')
                (flatConditions doc)) = 1)"

definition isNaturalisationDoc :: "'a FlatDocumentConfig_scheme \<Rightarrow> bool" where
  "isNaturalisationDoc doc =
     (''naturalisation_mariage'' \<in> set (tabsOf (flatTab doc)) \<and> ''decret'' \<notin> set (tabsOf (flatTab doc)))"

text \<open>\<open>docWithSingleCondition || matchingDocs[0]\<close>.\<close>

definition docToUse ::
  "'a FlatDocumentConfig_scheme list \<Rightarrow> 'a FlatDocumentConfig_scheme
   \<Rightarrow> 'a FlatDocumentConfig_scheme" where
  "docToUse matchingDocs first =
     (case find hasSingleCondition matchingDocs of
        Some docWithSingleCondition \<Rightarrow> docWithSingleCondition
      | None \<Rightarrow> first)"

text \<open>The view returned for the chosen document: the substring heuristics apply when it
  lists more than one view. The accented \<open>e\<close> of the first spelling of \<open>decret\<close> is the code
  unit 233.\<close>

definition tabOfDocToUse ::
  "string \<Rightarrow> 'a FlatDocumentConfig_scheme list \<Rightarrow> 'a FlatDocumentConfig_scheme
   \<Rightarrow> string option" where
  "tabOfDocToUse normalizedValue matchingDocs doc =
     (case flatTab doc of
        TabArray ts \<Rightarrow>
          if length ts > 1 then
            (if find isNaturalisationDoc matchingDocs \<noteq> None
                \<and> includesStr (toLowerCase normalizedValue) ''naturalisation''
             then Some ''naturalisation_mariage''
             else if includesStr (toLowerCase normalizedValue) (CHR ''d'' # CHR 0xE9 # ''cret'')
                     \<or> includesStr (toLowerCase normalizedValue) ''decret''
             then Some ''decret''
             else getTabValue (flatTab doc))
          else getTabValue (flatTab doc)
      | OneTab t \<Rightarrow> getTabValue (flatTab doc))"

text \<open>\<open>getTabForNatureDemande\<close>, second version; \<open>None\<close> is \<open>null\<close> or \<open>undefined\<close>.\<close>

definition getTabForNatureDemandeFlat ::
  "'a FlatDocumentConfig_scheme list \<Rightarrow> string \<Rightarrow> string option" where
  "getTabForNatureDemandeFlat DOCUMENTS_CONFIG natureDemandeValue =
     (if natureDemandeValue = [] then None
      else
        let normalizedValue = normalizeStr natureDemandeValue;
            matchingDocs = filter (isMatchingDoc normalizedValue) DOCUMENTS_CONFIG
        in case matchingDocs of
             [] \<Rightarrow> None
           | first # others \<Rightarrow>
               tabOfDocToUse normalizedValue matchingDocs (docToUse matchingDocs first))"

text \<open>Two catalogs in which two documents carry the category condition for \<open>Decret\<close>: the
  first document also depends on the domicile, the second on the category alone.\<close>

definition ambiguousCatalog :: "DocumentConfig list" where
  "ambiguousCatalog =
     [\<lparr>docId = ''titre_sejour'', name = ''Titre de sejour'',
       requiredProperty = ''titre_sejour_required'', providedProperty = ''titre_sejour_provided'',
       tabConfig = [(''fraterie'', \<lparr>order = 1, conditions =
          [\<lparr>property = ''sous_categorie'', operator = ''equals'', value = ''Decret''\<rparr>,
           \<lparr>property = ''domicile__'', operator = ''equals'', value = ''France''\<rparr>]\<rparr>)]\<rparr>,
      \<lparr>docId = ''passeport'', name = ''Passeport'',
       requiredProperty = ''passeport_required'', providedProperty = ''passeport_provided'',
       tabConfig = [(''decret'', \<lparr>order = 1, conditions =
          [\<lparr>property = ''sous_categorie'', operator = ''equals'', value = ''Decret''\<rparr>]\<rparr>)]\<rparr>]"

definition ambiguousFlatCatalog :: "FlatDocumentConfig list" where
  "ambiguousFlatCatalog =
     [\<lparr>flatId = ''titre_sejour'', flatName = ''Titre de sejour'', flatTab = OneTab ''fraterie'',
       flatConditions =
          [\<lparr>property = ''sous_categorie'', operator = ''equals'', value = ''Decret''\<rparr>,
           \<lparr>property = ''domicile__'', operator = ''equals'', value = ''France''\<rparr>]\<rparr>,
      \<lparr>flatId = ''passeport'', flatName = ''Passeport'', flatTab = OneTab ''decret'',
       flatConditions =
          [\<lparr>property = ''sous_categorie'', operator = ''equals'', value = ''Decret''\<rparr>]\<rparr>]"

text \<open>A flat catalog in which the first document matching \<open>Decret\<close> carries two category
  conditions and the second, which lists two views, carries one.\<close>

definition preferenceFlatCatalog :: "FlatDocumentConfig list" where
  "preferenceFlatCatalog =
     [\<lparr>flatId = ''livret_famille'', flatName = ''Livret de famille'', flatTab = OneTab ''fraterie'',
       flatConditions =
          [\<lparr>property = ''sous_categorie'', operator = ''equals'', value = ''Decret''\<rparr>,
           \<lparr>property = ''sous_categorie'', operator = ''equals'', value = ''Fratrie''\<rparr>]\<rparr>,
      \<lparr>flatId = ''passeport'', flatName = ''Passeport'',
       flatTab = TabArray [''naturalisation_mariage'', ''decret''],
       flatConditions =
          [\<lparr>property = ''sous_categorie'', operator = ''equals'', value = ''Decret''\<rparr>,
           \<lparr>property = ''domicile__'', operator = ''equals'', value = ''France''\<rparr>]\<rparr>]"

section \<open>The full-save write path\<close>

text \<open>
  \<open>updateDocuments.js\<close>, in its two versions. The record store is a parameter: its
  \<open>update\<close> call, given the number of calls made before and the batch of properties sent,
  either returns a response or throws an error. The credential and parameter checks
  made before the batch is built are outside the model.
\<close>

text \<open>\<open>err.context.propertyName\<close>: missing, one name or an array of names.\<close>

datatype PropertyName = NoPropertyName | OneProperty string | ManyProperties "string list"

text \<open>An entry of \<open>body.errors\<close>.\<close>

record ErrorEntry =
  propertyName :: PropertyName
  errorName :: "string option"
  errorMessage :: "string option"

text \<open>\<open>error.body\<close>: missing, a string, an object with an \<open>errors\<close> array, or another
  object.\<close>

datatype ErrorBody = NoBody | BodyString string | BodyErrors "ErrorEntry list" | BodyObject

record ApiError =
  statusCode :: "int option"
  code :: "int option"
  body :: ErrorBody

text \<open>A batch of properties, \<open>Object.keys\<close> in list order.\<close>

type_synonym batch = "(string \<times> jsval) list"

type_synonym 'r api = "nat \<Rightarrow> batch \<Rightarrow> ApiError + 'r"



subsection \<open>Pattern matching on error texts\<close>









subsection \<open>Field names named by an error\<close>






subsection \<open>The two versions of the write\<close>

text \<open>The batch built from \<open>context.parameters.documents\<close>: booleans become \<open>'true'\<close> and
  \<open>'false'\<close>; \<open>null\<close>, \<open>undefined\<close> and the empty string are left out.\<close>

fun toProperties :: "(string \<times> jsval) list \<Rightarrow> batch" where
  "toProperties [] = []"
| "toProperties ((key, v) # rest) =
     (case v of
        JBool b \<Rightarrow> (key, JStr (if b then ''true'' else ''false'')) # toProperties rest
      | JNull \<Rightarrow> toProperties rest
      | JUndefined \<Rightarrow> toProperties rest
      | JStr s \<Rightarrow> (if s = [] then toProperties rest else (key, v) # toProperties rest)
      | _ \<Rightarrow> (key, v) # toProperties rest)"








text \<open>A store in which no property of the batch exists: every write is rejected with a
  structured error naming the first property sent. And the batch of scenario E with a
  store that lacks only \<open>foo_required\<close>.\<close>

definition rejectingStore :: "unit api" where
  "rejectingStore n properties =
     Inl \<lparr>statusCode = Some 400, code = None,
          body = BodyErrors [\<lparr>propertyName = OneProperty (fst (hd properties)),
                              errorName = None, errorMessage = None\<rparr>]\<rparr>"

definition driftedStore :: "unit api" where
  "driftedStore n properties =
     (if ''foo_required'' \<in> set (map fst properties)
      then Inl \<lparr>statusCode = Some 400, code = None,
                body = BodyString (''Property '' @ [CHR 0x22] @ ''foo_required'' @ [CHR 0x22]
                                   @ '' does not exist'')\<rparr>
      else Inr ())"

definition notFoundStore :: "unit api" where
  "notFoundStore n properties = Inl \<lparr>statusCode = Some 404, code = None, body = NoBody\<rparr>"

definition threeDocuments :: "(string \<times> jsval) list" where
  "threeDocuments =
     [(''foo_required'', JBool True), (''bar_required'', JBool True),
      (''bar_provided'', JBool False)]"

section \<open>Properties: the condition evaluator\<close>

lemma lookupProperty_absent:
  assumes "\<forall>k \<in> set (map fst properties). toLowerCase k \<noteq> toLowerCase p"
    and "p \<notin> set inheritedNames"
  shows "lookupProperty properties p = JUndefined"
proof -
  from assms(1) have "p \<notin> fst ` set properties" by auto
  then have m: "map_of properties p = None" by (simp add: map_of_eq_None_iff)
  from assms(2) have i: "map_of objectPrototype p = None"
    by (simp add: map_of_eq_None_iff inheritedNames_def)
  from assms(1) have f: "find (\<lambda>k. toLowerCase k = toLowerCase p) (map fst properties) = None"
    by (simp add: find_None_iff)
  show ?thesis by (simp add: lookupProperty_def getProp_def m i f)
qed

text \<open>
  C9. A condition whose operator is none of \<open>equals\<close>, \<open>not_equals\<close>, \<open>contains\<close>,
  \<open>not_contains\<close>, \<open>in\<close> reaches the \<open>default\<close> branch of the switch: the evaluator returns
  true for every property bag.
\<close>

theorem evaluateCondition_unknown_operator:
  "operator c \<notin> {''equals'', ''not_equals'', ''contains'', ''not_contains'', ''in''}
   \<Longrightarrow> evaluateCondition c properties = True"
  by (simp add: evaluateCondition_def Let_def)

theorem evaluateCondition_unknown_operator_witness:
  "operator \<lparr>property = ''domicile__'', operator = ''matches'', value = ''France''\<rparr>
     \<notin> {''equals'', ''not_equals'', ''contains'', ''not_contains'', ''in''}
   \<and> evaluateCondition \<lparr>property = ''domicile__'', operator = ''matches'', value = ''France''\<rparr>
       [(''domicile__'', JStr ''Maroc'')] = True"
proof -
  have h: "operator \<lparr>property = ''domicile__'', operator = ''matches'', value = ''France''\<rparr>
     \<notin> {''equals'', ''not_equals'', ''contains'', ''not_contains'', ''in''}"
    by simp
  from evaluateCondition_unknown_operator [OF h] h show ?thesis by blast
qed

text \<open>
  C10, as stated, fails in two ways. The condition value is trimmed before the
  comparison, so a \<open>not_equals\<close> condition whose value is not empty but is only white space
  is not satisfied on a record that lacks the property. And a property that no key of
  the bag equals is still found when it names a member that every object inherits: for
  \<open>constructor\<close> the evaluator compares against the text of a function, not against the
  empty string.
\<close>

theorem not_equals_blank_value_counterexample:
  "value \<lparr>property = ''domicile__'', operator = ''not_equals'', value = '' ''\<rparr> \<noteq> []
   \<and> lookupProperty [(''sous_categorie'', JStr ''Decret'')] ''domicile__'' = JUndefined
   \<and> evaluateCondition \<lparr>property = ''domicile__'', operator = ''not_equals'', value = '' ''\<rparr>
       [(''sous_categorie'', JStr ''Decret'')] = False
   \<and> map_of [(''sous_categorie'', JStr ''Decret'')] ''constructor'' = None
   \<and> find (\<lambda>k. toLowerCase k = toLowerCase ''constructor'')
         (map fst [(''sous_categorie'', JStr ''Decret'')]) = None
   \<and> evaluateCondition \<lparr>property = ''constructor'', operator = ''equals'', value = []\<rparr>
       [(''sous_categorie'', JStr ''Decret'')] = False"
  by code_simp

text \<open>
  C10, amended. When no key of the bag equals the condition's property, exactly or up to
  case, and the property does not name an inherited member of \<open>Object.prototype\<close>, the
  evaluator compares against the empty string: \<open>equals\<close> returns true iff the trimmed
  condition value is empty, and \<open>not_equals\<close> returns true iff the trimmed condition value
  is not empty. So on a record lacking the property, every \<open>not_equals\<close> condition whose
  value is not blank is satisfied.
\<close>

theorem evaluateCondition_absent_property:
  assumes "\<forall>k \<in> set (map fst properties). toLowerCase k \<noteq> toLowerCase (property c)"
    and "property c \<notin> set inheritedNames"
  shows "lookupProperty properties (property c) = JUndefined
       \<and> (operator c = ''equals'' \<longrightarrow> evaluateCondition c properties = (trim (value c) = []))
       \<and> (operator c = ''not_equals'' \<longrightarrow> evaluateCondition c properties = (trim (value c) \<noteq> []))"
  using lookupProperty_absent [OF assms]
  by (auto simp: evaluateCondition_def Let_def)

theorem evaluateCondition_absent_property_witness:
  "evaluateCondition \<lparr>property = ''domicile__'', operator = ''equals'', value = ''  ''\<rparr>
     [(''sous_categorie'', JStr ''Decret'')] = True
   \<and> evaluateCondition \<lparr>property = ''domicile__'', operator = ''not_equals'', value = ''France''\<rparr>
     [(''sous_categorie'', JStr ''Decret'')] = True"
proof -
  let ?bag = "[(''sous_categorie'', JStr ''Decret'')]"
  let ?c1 = "\<lparr>property = ''domicile__'', operator = ''equals'', value = ''  ''\<rparr>"
  let ?c2 = "\<lparr>property = ''domicile__'', operator = ''not_equals'', value = ''France''\<rparr>"
  have h: "\<forall>k \<in> set (map fst ?bag). toLowerCase k \<noteq> toLowerCase ''domicile__''"
    by (simp add: toLowerCase_def lowerChar_def)
  have h1: "\<forall>k \<in> set (map fst ?bag). toLowerCase k \<noteq> toLowerCase (property ?c1)"
    using h by simp
  have h2: "\<forall>k \<in> set (map fst ?bag). toLowerCase k \<noteq> toLowerCase (property ?c2)"
    using h by simp
  have i: "''domicile__'' \<notin> set inheritedNames"
    by (simp add: inheritedNames_def objectPrototype_def)
  have i1: "property ?c1 \<notin> set inheritedNames" using i by simp
  have i2: "property ?c2 \<notin> set inheritedNames" using i by simp
  have t1: "trim (value ?c1) = []" by (simp add: trim_def isWhiteSpace_def)
  have t2: "trim (value ?c2) \<noteq> []" by (simp add: trim_def isWhiteSpace_def)
  from evaluateCondition_absent_property [OF h1 i1] t1
  have a: "evaluateCondition ?c1 ?bag = True" by simp
  from evaluateCondition_absent_property [OF h2 i2] t2
  have b: "evaluateCondition ?c2 ?bag = True" by simp
  from a b show ?thesis by blast
qed

section \<open>Properties: the requirement resolver\<close>

lemma pushCondition_keys:
  "set (map fst (pushCondition c m)) = insert (property c) (set (map fst m))"
  by (induction c m rule: pushCondition.induct) auto

lemma pushCondition_distinct: "distinct (map fst m) \<Longrightarrow> distinct (map fst (pushCondition c m))"
proof (induction c m rule: pushCondition.induct)
  case (1 c) then show ?case by simp
next
  case (2 c k cs rest)
  then show ?case using pushCondition_keys [of c rest] by auto
qed

lemma map_of_pushCondition:
  "map_of (pushCondition c m) k =
     (if k = property c then Some ((case map_of m k of None \<Rightarrow> [] | Some cs \<Rightarrow> cs) @ [c])
      else map_of m k)"
  by (induction c m rule: pushCondition.induct) auto

lemma conditionsByProperty_snoc:
  "conditionsByProperty (conds @ [c]) = pushCondition c (conditionsByProperty conds)"
  by (simp add: conditionsByProperty_def)

lemma conditionsByProperty_distinct: "distinct (map fst (conditionsByProperty conds))"
proof (induction conds rule: rev_induct)
  case Nil then show ?case by (simp add: conditionsByProperty_def)
next
  case (snoc c conds)
  then show ?case by (simp add: conditionsByProperty_snoc pushCondition_distinct)
qed

lemma map_of_conditionsByProperty:
  "map_of (conditionsByProperty conds) k =
     (if k \<in> property ` set conds then Some (filter (\<lambda>c. property c = k) conds) else None)"
proof (induction conds rule: rev_induct)
  case Nil then show ?case by (simp add: conditionsByProperty_def)
next
  case (snoc c conds)
  then show ?case
    by (auto simp: conditionsByProperty_snoc map_of_pushCondition filter_empty_conv
          empty_filter_conv image_iff) metis+
qed

lemma conditionsByProperty_mem:
  "(k, cs) \<in> set (conditionsByProperty conds)
   \<longleftrightarrow> k \<in> property ` set conds \<and> cs = filter (\<lambda>c. property c = k) conds"
proof -
  have "(k, cs) \<in> set (conditionsByProperty conds)
        \<longleftrightarrow> map_of (conditionsByProperty conds) k = Some cs"
    using conditionsByProperty_distinct [of conds] by auto
  then show ?thesis by (auto simp: map_of_conditionsByProperty)
qed

lemma groups_all_match:
  "list_all (\<lambda>(p, propConditions). list_ex (\<lambda>c. evaluateCondition c properties) propConditions)
     (conditionsByProperty conds)
   \<longleftrightarrow> (\<forall>p \<in> property ` set conds.
          \<exists>c \<in> set conds. property c = p \<and> evaluateCondition c properties)"
  (is "?L \<longleftrightarrow> ?R")
proof
  assume L: ?L
  show ?R
  proof
    fix p assume p: "p \<in> property ` set conds"
    then have "(p, filter (\<lambda>c. property c = p) conds) \<in> set (conditionsByProperty conds)"
      by (simp add: conditionsByProperty_mem)
    with L have "list_ex (\<lambda>c. evaluateCondition c properties) (filter (\<lambda>c. property c = p) conds)"
      by (auto simp: list_all_iff)
    then show "\<exists>c \<in> set conds. property c = p \<and> evaluateCondition c properties"
      by (auto simp: list_ex_iff)
  qed
next
  assume R: ?R
  show ?L
    unfolding list_all_iff
  proof (clarify)
    fix k cs assume "(k, cs) \<in> set (conditionsByProperty conds)"
    then have k: "k \<in> property ` set conds" and cs: "cs = filter (\<lambda>c. property c = k) conds"
      by (simp_all add: conditionsByProperty_mem)
    from R k obtain c where "c \<in> set conds" "property c = k" "evaluateCondition c properties"
      by blast
    then show "list_ex (\<lambda>c. evaluateCondition c properties) cs"
      by (auto simp: cs list_ex_iff)
  qed
qed

lemma checkDocumentConditions_pooled:
  "checkDocumentConditions doc properties None
   \<longleftrightarrow> (\<forall>p \<in> property ` set (getAllConditions doc).
          \<exists>c \<in> set (getAllConditions doc). property c = p \<and> evaluateCondition c properties)"
  by (auto simp: checkDocumentConditions_def groups_all_match Let_def)

lemma checkDocumentConditions_tab:
  "t \<noteq> [] \<Longrightarrow> checkDocumentConditions doc properties (Some t)
   \<longleftrightarrow> (\<forall>p \<in> property ` set (getConditionsForTab doc t).
          \<exists>c \<in> set (getConditionsForTab doc t). property c = p \<and> evaluateCondition c properties)"
  by (auto simp: checkDocumentConditions_def groups_all_match Let_def)

lemma set_getAllConditions:
  "set (getAllConditions doc) = (\<Union>(t, cfg) \<in> set (tabConfig doc). set (conditions cfg))"
  by (auto simp: getAllConditions_def)

text \<open>
  C5. The conditions under evaluation are those of the given view, or, when no view is
  given, the conditions of all the document's views pooled. They are grouped by property
  name (each group holds exactly the conditions with that property name), and the result
  is true iff every group has a condition that evaluates to true: an AND of ORs. With no
  condition for the view the result is true.
\<close>

theorem checkDocumentConditions_and_of_ors:
  "(\<forall>k cs. (k, cs) \<in> set (conditionsByProperty conds)
        \<longleftrightarrow> k \<in> property ` set conds \<and> cs = filter (\<lambda>c. property c = k) conds)
   \<and> (t \<noteq> [] \<longrightarrow>
        (checkDocumentConditions doc properties (Some t)
         \<longleftrightarrow> (\<forall>p \<in> property ` set (getConditionsForTab doc t).
                \<exists>c \<in> set (getConditionsForTab doc t).
                  property c = p \<and> evaluateCondition c properties)))
   \<and> (t \<noteq> [] \<and> getConditionsForTab doc t = []
        \<longrightarrow> checkDocumentConditions doc properties (Some t))
   \<and> (checkDocumentConditions doc properties None
        \<longleftrightarrow> (\<forall>p \<in> property ` set (getAllConditions doc).
               \<exists>c \<in> set (getAllConditions doc).
                 property c = p \<and> evaluateCondition c properties))
   \<and> set (getAllConditions doc) = (\<Union>(t, cfg) \<in> set (tabConfig doc). set (conditions cfg))"
proof (intro conjI allI impI)
  show "\<And>k cs. (k, cs) \<in> set (conditionsByProperty conds)
        \<longleftrightarrow> k \<in> property ` set conds \<and> cs = filter (\<lambda>c. property c = k) conds"
    by (rule conditionsByProperty_mem)
  show "t \<noteq> [] \<Longrightarrow> checkDocumentConditions doc properties (Some t)
         \<longleftrightarrow> (\<forall>p \<in> property ` set (getConditionsForTab doc t).
                \<exists>c \<in> set (getConditionsForTab doc t).
                  property c = p \<and> evaluateCondition c properties)"
    by (rule checkDocumentConditions_tab)
  show "t \<noteq> [] \<and> getConditionsForTab doc t = []
        \<Longrightarrow> checkDocumentConditions doc properties (Some t)"
    by (simp add: checkDocumentConditions_def)
  show "checkDocumentConditions doc properties None
        \<longleftrightarrow> (\<forall>p \<in> property ` set (getAllConditions doc).
               \<exists>c \<in> set (getAllConditions doc).
                 property c = p \<and> evaluateCondition c properties)"
    by (rule checkDocumentConditions_pooled)
  show "set (getAllConditions doc) = (\<Union>(t, cfg) \<in> set (tabConfig doc). set (conditions cfg))"
    by (rule set_getAllConditions)
qed

lemmas example_simps = exampleConfig_def exampleBag_def exampleDocument_def exampleState_def
  driftedBag_def driftedState_def

theorem checkDocumentConditions_and_of_ors_witness:
  "checkDocumentConditions exampleConfig exampleBag (Some ''decret'')
   \<and> \<not> checkDocumentConditions exampleConfig exampleBag (Some ''fraterie'')
   \<and> checkDocumentConditions exampleConfig exampleBag (Some ''autre'')
   \<and> checkDocumentConditions exampleConfig exampleBag None"
proof -
  note inst = checkDocumentConditions_and_of_ors [of _ _ exampleConfig exampleBag]
  have a: "\<forall>p \<in> property ` set (getConditionsForTab exampleConfig ''decret'').
             \<exists>c \<in> set (getConditionsForTab exampleConfig ''decret'').
               property c = p \<and> evaluateCondition c exampleBag"
    unfolding example_simps by code_simp
  have b: "\<not> (\<forall>p \<in> property ` set (getConditionsForTab exampleConfig ''fraterie'').
             \<exists>c \<in> set (getConditionsForTab exampleConfig ''fraterie'').
               property c = p \<and> evaluateCondition c exampleBag)"
    unfolding example_simps by code_simp
  have c: "getConditionsForTab exampleConfig ''autre'' = []"
    unfolding example_simps by code_simp
  have d: "\<forall>p \<in> property ` set (getAllConditions exampleConfig).
             \<exists>c \<in> set (getAllConditions exampleConfig).
               property c = p \<and> evaluateCondition c exampleBag"
    unfolding example_simps by code_simp
  have ne: "''decret'' \<noteq> []" "''fraterie'' \<noteq> []" "''autre'' \<noteq> []" by simp_all
  from inst [of _ "''decret''"] a ne(1)
  have 1: "checkDocumentConditions exampleConfig exampleBag (Some ''decret'')" by blast
  from inst [of _ "''fraterie''"] b ne(2)
  have 2: "\<not> checkDocumentConditions exampleConfig exampleBag (Some ''fraterie'')" by blast
  from inst [of _ "''autre''"] c ne(3)
  have 3: "checkDocumentConditions exampleConfig exampleBag (Some ''autre'')" by blast
  from inst [of "[]" "''autre''"] d
  have 4: "checkDocumentConditions exampleConfig exampleBag None" by blast
  from 1 2 3 4 show ?thesis by blast
qed

lemma config_extend [simp]:
  "tabConfig (DocumentConfig.extend c m) = tabConfig c"
  "docId (DocumentConfig.extend c m) = docId c"
  "requiredProperty (DocumentConfig.extend c m) = requiredProperty c"
  "providedProperty (DocumentConfig.extend c m) = providedProperty c"
  by (simp_all add: DocumentConfig.defs)

lemma getAllConditions_cong:
  "tabConfig d = tabConfig d' \<Longrightarrow> getAllConditions d = getAllConditions d'"
  by (simp add: getAllConditions_def)

lemma checkDocumentConditions_cong:
  assumes e: "tabConfig d = tabConfig d'"
  shows "checkDocumentConditions d properties t = checkDocumentConditions d' properties t"
proof -
  have a: "getAllConditions d = getAllConditions d'"
    using e by (simp add: getAllConditions_def)
  have b: "\<And>t. getConditionsForTab d t = getConditionsForTab d' t"
    using e by (simp add: getConditionsForTab_def)
  show ?thesis unfolding checkDocumentConditions_def a b ..
qed

lemma resolveDocument_fields:
  "docId (resolveDocument properties doc) = docId doc"
  "provided (resolveDocument properties doc) = toBool (getProp properties (providedProperty doc))"
  "required (resolveDocument properties doc) =
     (if getAllConditions doc \<noteq> [] then
        (if checkDocumentConditions doc properties None then True
         else if toBool (getProp properties (providedProperty doc))
              then toBool (getProp properties (requiredProperty doc))
              else False)
      else toBool (getProp properties (requiredProperty doc)))"
  by (simp_all add: resolveDocument_def Let_def Document.defs)

text \<open>
  C1. At fetch time, unless a guard returns first (no object id, a known configuration
  error, a response that carries an error), every catalog document is resolved against
  the fetched bag. With \<open>hasConditions\<close> (some condition in some view), \<open>conditionsMet\<close>
  (the pooled conditions hold) and the persisted manual flag: conditions met give
  required; conditions not met keep the manual flag when the document is provided and
  give not required when it is not; without conditions required is the manual flag.
\<close>

theorem fetchDocumentValues_required_status:
  assumes "i < length DOCUMENTS_CONFIG"
  shows "(fetchDocumentValues DOCUMENTS_CONFIG objectId hasConfigError response = None
          \<longleftrightarrow> \<not> truthy objectId \<or> hasConfigError \<or> truthy (getProp response ''error''))
    \<and> (\<forall>docs. fetchDocumentValues DOCUMENTS_CONFIG objectId hasConfigError response = Some docs
        \<longrightarrow> length docs = length DOCUMENTS_CONFIG \<and>
    (let config = DOCUMENTS_CONFIG ! i;
         properties = fetchProperties response;
         doc = docs ! i;
         hasConditions = (getAllConditions config \<noteq> []);
         conditionsMet = checkDocumentConditions config properties None;
         manualRequired = toBool (getProp properties (requiredProperty config))
     in docId doc = docId config
        \<and> provided doc = toBool (getProp properties (providedProperty config))
        \<and> (hasConditions \<and> conditionsMet \<longrightarrow> required doc = True)
        \<and> (hasConditions \<and> \<not> conditionsMet \<and> provided doc \<longrightarrow> required doc = manualRequired)
        \<and> (hasConditions \<and> \<not> conditionsMet \<and> \<not> provided doc \<longrightarrow> required doc = False)
        \<and> (\<not> hasConditions \<longrightarrow> required doc = manualRequired)))"
proof (rule conjI)
  show "fetchDocumentValues DOCUMENTS_CONFIG objectId hasConfigError response = None
        \<longleftrightarrow> \<not> truthy objectId \<or> hasConfigError \<or> truthy (getProp response ''error'')"
    by (simp add: fetchDocumentValues_def)
next
  show "\<forall>docs. fetchDocumentValues DOCUMENTS_CONFIG objectId hasConfigError response = Some docs
        \<longrightarrow> length docs = length DOCUMENTS_CONFIG \<and>
    (let config = DOCUMENTS_CONFIG ! i;
         properties = fetchProperties response;
         doc = docs ! i;
         hasConditions = (getAllConditions config \<noteq> []);
         conditionsMet = checkDocumentConditions config properties None;
         manualRequired = toBool (getProp properties (requiredProperty config))
     in docId doc = docId config
        \<and> provided doc = toBool (getProp properties (providedProperty config))
        \<and> (hasConditions \<and> conditionsMet \<longrightarrow> required doc = True)
        \<and> (hasConditions \<and> \<not> conditionsMet \<and> provided doc \<longrightarrow> required doc = manualRequired)
        \<and> (hasConditions \<and> \<not> conditionsMet \<and> \<not> provided doc \<longrightarrow> required doc = False)
        \<and> (\<not> hasConditions \<longrightarrow> required doc = manualRequired))"
  proof (intro allI impI)
  fix docs
  assume "fetchDocumentValues DOCUMENTS_CONFIG objectId hasConfigError response = Some docs"
  then have docs: "docs = map (resolveDocument (fetchProperties response))
                            (INITIAL_DOCUMENTS DOCUMENTS_CONFIG)"
    by (simp add: fetchDocumentValues_def split: if_splits)
  let ?c = "DOCUMENTS_CONFIG ! i"
  let ?d = "DocumentConfig.extend ?c \<lparr>required = False, provided = False\<rparr>"
  have doc: "docs ! i = resolveDocument (fetchProperties response) ?d"
    using assms by (simp add: docs INITIAL_DOCUMENTS_def)
  have g: "getAllConditions ?d = getAllConditions ?c"
    by (rule getAllConditions_cong) simp
  have k: "checkDocumentConditions ?d (fetchProperties response) None
           = checkDocumentConditions ?c (fetchProperties response) None"
    by (rule checkDocumentConditions_cong) simp
  have len: "length docs = length DOCUMENTS_CONFIG"
    by (simp add: docs INITIAL_DOCUMENTS_def)
  show "length docs = length DOCUMENTS_CONFIG \<and>
    (let config = DOCUMENTS_CONFIG ! i;
         properties = fetchProperties response;
         doc = docs ! i;
         hasConditions = (getAllConditions config \<noteq> []);
         conditionsMet = checkDocumentConditions config properties None;
         manualRequired = toBool (getProp properties (requiredProperty config))
     in docId doc = docId config
        \<and> provided doc = toBool (getProp properties (providedProperty config))
        \<and> (hasConditions \<and> conditionsMet \<longrightarrow> required doc = True)
        \<and> (hasConditions \<and> \<not> conditionsMet \<and> provided doc \<longrightarrow> required doc = manualRequired)
        \<and> (hasConditions \<and> \<not> conditionsMet \<and> \<not> provided doc \<longrightarrow> required doc = False)
        \<and> (\<not> hasConditions \<longrightarrow> required doc = manualRequired))"
    by (simp add: len doc Let_def resolveDocument_fields g k)
  qed
qed

theorem fetchDocumentValues_required_status_witness:
  "fetchDocumentValues [exampleConfig] (JStr ''1001'') False exampleBag \<noteq> None
   \<and> required (the (fetchDocumentValues [exampleConfig] (JStr ''1001'') False exampleBag) ! 0) = True
   \<and> provided (the (fetchDocumentValues [exampleConfig] (JStr ''1001'') False exampleBag) ! 0) = True
   \<and> fetchDocumentValues [exampleConfig] (JStr ''1001'') False
        [(''error'', JStr ''Object not found'')] = None"
proof -
  have h: "0 < length [exampleConfig]" by simp
  note inst = fetchDocumentValues_required_status [OF h, of "JStr ''1001''" False exampleBag]
  note err = fetchDocumentValues_required_status
    [OF h, of "JStr ''1001''" False "[(''error'', JStr ''Object not found'')]"]
  have e: "truthy (getProp [(''error'', JStr ''Object not found'')] ''error'')"
    by (simp add: getProp_def)
  have ne: "\<not> truthy (getProp exampleBag ''error'')"
    unfolding example_simps by code_simp
  have hc: "getAllConditions ([exampleConfig] ! 0) \<noteq> []"
    unfolding example_simps by code_simp
  have cm: "checkDocumentConditions ([exampleConfig] ! 0) (fetchProperties exampleBag) None"
    unfolding example_simps by code_simp
  have pr: "toBool (getProp (fetchProperties exampleBag) (providedProperty ([exampleConfig] ! 0)))"
    unfolding example_simps by code_simp
  from inst ne obtain docs where
    d: "fetchDocumentValues [exampleConfig] (JStr ''1001'') False exampleBag = Some docs"
    by auto
  from inst d hc cm pr have "required (docs ! 0) = True \<and> provided (docs ! 0) = True"
    by (simp add: Let_def)
  moreover from err e
  have "fetchDocumentValues [exampleConfig] (JStr ''1001'') False
          [(''error'', JStr ''Object not found'')] = None"
    by blast
  ultimately show ?thesis using d by simp
qed

section \<open>Properties: manual toggling\<close>

lemma toggleDocument_required_rejected:
  assumes "tab \<noteq> ''autre''" "getAllConditions doc \<noteq> []"
    "checked \<noteq> checkDocumentConditions doc properties None"
  shows "toggleDocument properties tab documentId FieldRequired checked doc = doc"
  using assms by (auto simp: toggleDocument_def Let_def)

lemma toggleDocument_required_autre:
  "toggleDocument properties ''autre'' documentId FieldRequired checked doc
   = (if docId doc = documentId then doc\<lparr>required := checked\<rparr> else doc)"
  by (simp add: toggleDocument_def Let_def)

lemma toggleDocument_provided:
  "toggleDocument properties tab documentId FieldProvided checked doc
   = (if docId doc = documentId then doc\<lparr>provided := checked\<rparr> else doc)"
  by (simp add: toggleDocument_def)

text \<open>
  C8. Outside the overflow view \<open>autre\<close>, toggling \<open>required\<close> on a document that has
  conditions, in the direction that contradicts whether its conditions are met, leaves
  the documents unchanged. In the overflow view the toggle always sets \<open>required\<close> to the
  checked value, and toggling \<open>provided\<close> sets \<open>provided\<close> to the checked value in every
  view.
\<close>

theorem handleCheckboxToggle_rules:
  "(selectedTab st \<noteq> ''autre''
     \<and> (\<forall>doc \<in> set (documents st). docId doc = documentId \<longrightarrow>
           getAllConditions doc \<noteq> []
           \<and> checked \<noteq> checkDocumentConditions doc (recordProperties st) None)
     \<longrightarrow> documents (handleCheckboxToggle documentId FieldRequired checked st) = documents st)
   \<and> (selectedTab st = ''autre''
     \<longrightarrow> documents (handleCheckboxToggle documentId FieldRequired checked st)
         = map (\<lambda>doc. if docId doc = documentId then doc\<lparr>required := checked\<rparr> else doc)
             (documents st))
   \<and> documents (handleCheckboxToggle documentId FieldProvided checked st)
       = map (\<lambda>doc. if docId doc = documentId then doc\<lparr>provided := checked\<rparr> else doc)
           (documents st)"
proof (intro conjI impI)
  assume a: "selectedTab st \<noteq> ''autre''
     \<and> (\<forall>doc \<in> set (documents st). docId doc = documentId \<longrightarrow>
           getAllConditions doc \<noteq> []
           \<and> checked \<noteq> checkDocumentConditions doc (recordProperties st) None)"
  have "map (toggleDocument (recordProperties st) (selectedTab st) documentId FieldRequired checked)
          (documents st) = map (\<lambda>doc. doc) (documents st)"
  proof (rule map_cong [OF refl])
    fix doc assume d: "doc \<in> set (documents st)"
    show "toggleDocument (recordProperties st) (selectedTab st) documentId FieldRequired checked doc
          = doc"
    proof (cases "docId doc = documentId")
      case True
      with a d show ?thesis by (intro toggleDocument_required_rejected) auto
    next
      case False
      then show ?thesis by (simp add: toggleDocument_def)
    qed
  qed
  then show "documents (handleCheckboxToggle documentId FieldRequired checked st) = documents st"
    by (simp add: handleCheckboxToggle_def Let_def)
next
  assume "selectedTab st = ''autre''"
  then show "documents (handleCheckboxToggle documentId FieldRequired checked st)
         = map (\<lambda>doc. if docId doc = documentId then doc\<lparr>required := checked\<rparr> else doc)
             (documents st)"
    by (simp add: handleCheckboxToggle_def Let_def toggleDocument_required_autre)
next
  show "documents (handleCheckboxToggle documentId FieldProvided checked st)
       = map (\<lambda>doc. if docId doc = documentId then doc\<lparr>provided := checked\<rparr> else doc)
           (documents st)"
    by (simp add: handleCheckboxToggle_def Let_def toggleDocument_provided)
qed

theorem handleCheckboxToggle_rules_witness:
  "documents (handleCheckboxToggle ''acte_naissance'' FieldRequired False exampleState)
     = documents exampleState
   \<and> documents (handleCheckboxToggle ''acte_naissance'' FieldRequired False
        (exampleState\<lparr>selectedTab := ''autre''\<rparr>))
     = [exampleDocument\<lparr>required := False\<rparr>]
   \<and> documents (handleCheckboxToggle ''acte_naissance'' FieldProvided False exampleState)
     = [exampleDocument\<lparr>provided := False\<rparr>]"
proof -
  have h: "selectedTab exampleState \<noteq> ''autre''
     \<and> (\<forall>doc \<in> set (documents exampleState). docId doc = ''acte_naissance'' \<longrightarrow>
           getAllConditions doc \<noteq> []
           \<and> False \<noteq> checkDocumentConditions doc (recordProperties exampleState) None)"
    unfolding example_simps by code_simp
  have s: "selectedTab (exampleState\<lparr>selectedTab := ''autre''\<rparr>) = ''autre''" by simp
  have i: "docId exampleDocument = ''acte_naissance''"
    unfolding example_simps by (simp add: DocumentConfig.defs)
  have d: "documents (exampleState\<lparr>selectedTab := ''autre''\<rparr>) = [exampleDocument]"
     "documents exampleState = [exampleDocument]"
    by (simp_all add: exampleState_def)
  from handleCheckboxToggle_rules [of exampleState "''acte_naissance''" False] h
  have 1: "documents (handleCheckboxToggle ''acte_naissance'' FieldRequired False exampleState)
     = documents exampleState" by blast
  from handleCheckboxToggle_rules
         [of "exampleState\<lparr>selectedTab := ''autre''\<rparr>" "''acte_naissance''" False] s
  have 2: "documents (handleCheckboxToggle ''acte_naissance'' FieldRequired False
        (exampleState\<lparr>selectedTab := ''autre''\<rparr>))
     = [exampleDocument\<lparr>required := False\<rparr>]"
    by (simp add: d i)
  from handleCheckboxToggle_rules [of exampleState "''acte_naissance''" False]
  have 3: "documents (handleCheckboxToggle ''acte_naissance'' FieldProvided False exampleState)
     = [exampleDocument\<lparr>provided := False\<rparr>]"
    by (simp add: d i)
  from 1 2 3 show ?thesis by blast
qed

section \<open>Properties: the visibility filter\<close>

lemma getVisibleDocuments_set:
  assumes "trim (searchTerm st) = []"
  shows "set (getVisibleDocuments DOCUMENTS_CONFIG st)
         = {doc \<in> set (documents st).
              isVisible (getActiveTabId DOCUMENTS_CONFIG (natureDemande st))
                (propsForConditions (recordProperties st) (natureDemande st)) (selectedTab st) doc}"
  using assms by (auto simp: getVisibleDocuments_def Let_def)

text \<open>
  C3. With no search term, and an active view \<open>a\<close> that is not the overflow view: in the
  active view the visible documents are exactly those belonging to it whose conditions
  for that view are met or that are both required and provided (so a required and
  provided document stays visible after its condition stops matching); in the overflow
  view \<open>autre\<close> they are exactly the documents flagged required or provided that do not
  both belong to the active view and have their conditions met there, plus the documents
  of the active view whose conditions are not met. With no active view the overflow view
  shows every flagged document.
\<close>

theorem getVisibleDocuments_views:
  assumes "trim (searchTerm st) = []"
    and "a \<noteq> []" and "a \<noteq> ''autre''"
  shows
  "(getActiveTabId DOCUMENTS_CONFIG (natureDemande st) = Some a \<and> selectedTab st = a \<longrightarrow>
      (\<forall>doc. doc \<in> set (getVisibleDocuments DOCUMENTS_CONFIG st) \<longleftrightarrow>
         doc \<in> set (documents st) \<and> documentBelongsToTab doc a
         \<and> (checkDocumentConditions doc
               (propsForConditions (recordProperties st) (natureDemande st)) (Some a)
             \<or> (required doc \<and> provided doc))))
   \<and> (getActiveTabId DOCUMENTS_CONFIG (natureDemande st) = Some a \<and> selectedTab st = ''autre'' \<longrightarrow>
      (\<forall>doc. doc \<in> set (getVisibleDocuments DOCUMENTS_CONFIG st) \<longleftrightarrow>
         doc \<in> set (documents st)
         \<and> (((required doc \<or> provided doc)
              \<and> \<not> (documentBelongsToTab doc a
                    \<and> checkDocumentConditions doc
                        (propsForConditions (recordProperties st) (natureDemande st)) (Some a)))
            \<or> (documentBelongsToTab doc a
                \<and> \<not> checkDocumentConditions doc
                      (propsForConditions (recordProperties st) (natureDemande st)) (Some a)))))
   \<and> (getActiveTabId DOCUMENTS_CONFIG (natureDemande st) = None \<and> selectedTab st = ''autre'' \<longrightarrow>
      (\<forall>doc. doc \<in> set (getVisibleDocuments DOCUMENTS_CONFIG st) \<longleftrightarrow>
         doc \<in> set (documents st) \<and> (required doc \<or> provided doc)))"
  using assms(2,3)
  by (auto simp: getVisibleDocuments_set [OF assms(1)] isVisible_def truthyTab_def Let_def)

theorem getVisibleDocuments_views_witness:
  "exampleDocument \<in> set (getVisibleDocuments [exampleConfig] driftedState)
   \<and> exampleDocument \<in> set (getVisibleDocuments [exampleConfig]
                              (driftedState\<lparr>selectedTab := ''autre''\<rparr>))
   \<and> exampleDocument \<in> set (getVisibleDocuments [exampleConfig] exampleState)
   \<and> exampleDocument \<notin> set (getVisibleDocuments [exampleConfig]
                              (exampleState\<lparr>selectedTab := ''autre''\<rparr>))"
proof -
  have ne: "''decret'' \<noteq> []" "''decret'' \<noteq> ''autre''" by simp_all
  have t: "trim (searchTerm driftedState) = []" "trim (searchTerm exampleState) = []"
     "trim (searchTerm (driftedState\<lparr>selectedTab := ''autre''\<rparr>)) = []"
     "trim (searchTerm (exampleState\<lparr>selectedTab := ''autre''\<rparr>)) = []"
    unfolding example_simps by code_simp+
  have act: "getActiveTabId [exampleConfig] (natureDemande driftedState) = Some ''decret''"
    "getActiveTabId [exampleConfig] (natureDemande exampleState) = Some ''decret''"
    unfolding example_simps by code_simp+
  have sel: "selectedTab driftedState = ''decret''" "selectedTab exampleState = ''decret''"
    by (simp_all add: driftedState_def exampleState_def)
  have docs: "documents driftedState = [exampleDocument]" "documents exampleState = [exampleDocument]"
    by (simp_all add: driftedState_def exampleState_def)
  have b: "documentBelongsToTab exampleDocument ''decret''"
    unfolding example_simps by code_simp
  have rp: "required exampleDocument" "provided exampleDocument"
    unfolding example_simps by code_simp+
  have c1: "\<not> checkDocumentConditions exampleDocument
               (propsForConditions (recordProperties driftedState) (natureDemande driftedState))
               (Some ''decret'')"
    unfolding example_simps by code_simp
  have c2: "checkDocumentConditions exampleDocument
               (propsForConditions (recordProperties exampleState) (natureDemande exampleState))
               (Some ''decret'')"
    unfolding example_simps by code_simp
  from getVisibleDocuments_views [OF t(1) ne, of "[exampleConfig]"] act(1) sel(1) docs(1) b rp
  have 1: "exampleDocument \<in> set (getVisibleDocuments [exampleConfig] driftedState)"
    by simp
  from getVisibleDocuments_views [OF t(3) ne, of "[exampleConfig]"] act(1) docs(1) b rp c1
  have 2: "exampleDocument \<in> set (getVisibleDocuments [exampleConfig]
                              (driftedState\<lparr>selectedTab := ''autre''\<rparr>))"
    by simp
  from getVisibleDocuments_views [OF t(2) ne, of "[exampleConfig]"] act(2) sel(2) docs(2) b rp
  have 3: "exampleDocument \<in> set (getVisibleDocuments [exampleConfig] exampleState)"
    by simp
  from getVisibleDocuments_views [OF t(4) ne, of "[exampleConfig]"] act(2) docs(2) b rp c2
  have 4: "exampleDocument \<notin> set (getVisibleDocuments [exampleConfig]
                              (exampleState\<lparr>selectedTab := ''autre''\<rparr>))"
    by simp
  from 1 2 3 4 show ?thesis by blast
qed

section \<open>Properties: the completion calculator\<close>

lemma roundHalfEven_nat:
  assumes "0 < b"
  shows "2 * \<bar>int (roundHalfEven a b) * int b - int a\<bar> \<le> int b"
proof -
  define d r where "d = a div b" and "r = a mod b"
  have a: "a = d * b + r" by (simp add: d_def r_def)
  have r: "r < b" using assms by (simp add: r_def)
  have ia: "int a = int d * int b + int r" using a by (metis of_nat_add of_nat_mult)
  have "roundHalfEven a b = d \<and> 2 * r \<le> b \<or> roundHalfEven a b = d + 1 \<and> b \<le> 2 * r"
    by (auto simp: roundHalfEven_def Let_def d_def r_def)
  then show ?thesis
  proof
    assume "roundHalfEven a b = d \<and> 2 * r \<le> b"
    then show ?thesis using ia by simp
  next
    assume h: "roundHalfEven a b = d + 1 \<and> b \<le> 2 * r"
    then have "int (roundHalfEven a b) * int b - int a = int b - int r"
      using ia by (simp add: algebra_simps)
    then show ?thesis using h r by simp
  qed
qed

lemma roundHalfEven_real:
  assumes "0 < b"
  shows "\<bar>real (roundHalfEven a b) - real a / real b\<bar> \<le> 1 / 2"
proof -
  have "real_of_int (2 * \<bar>int (roundHalfEven a b) * int b - int a\<bar>) \<le> real_of_int (int b)"
    using roundHalfEven_nat [OF assms, of a] by (rule iffD2 [OF of_int_le_iff])
  then have "2 * \<bar>real (roundHalfEven a b) * real b - real a\<bar> \<le> real b"
    by simp
  moreover have "real (roundHalfEven a b) - real a / real b
                 = (real (roundHalfEven a b) * real b - real a) / real b"
    using assms by (simp add: field_simps)
  ultimately show ?thesis using assms by (simp add: abs_divide field_simps)
qed


lemma divideDouble_scale:
  assumes "0 < p" "0 < r"
  shows "2 ^ 52 * r \<le> p * 2 ^ snd (divideDouble p r)"
proof -
  define n0 where "n0 = nat (52 + bitlen (int r) - bitlen (int p))"
  show ?thesis
  proof (cases "2 ^ 52 * r \<le> p * 2 ^ n0")
    case True
    then show ?thesis by (simp add: divideDouble_def Let_def n0_def)
  next
    case False
    have sn: "snd (divideDouble p r) = n0 + 1"
      using False by (simp add: divideDouble_def Let_def n0_def)
    have bp: "2 ^ nat (bitlen (int p) - 1) \<le> int p" and br: "int r < 2 ^ nat (bitlen (int r))"
      using bitlen_bounds [of "int p"] bitlen_bounds [of "int r"] assms by simp_all
    have bp1: "1 \<le> bitlen (int p)" using assms by (simp add: bitlen_alt_def)
    have "nat (52 + bitlen (int r)) \<le> nat (bitlen (int p) - 1) + (n0 + 1)"
      using bp1 bitlen_nonneg [of "int r"] by (simp add: n0_def)
    then have "(2::int) ^ nat (52 + bitlen (int r)) \<le> 2 ^ (nat (bitlen (int p) - 1) + (n0 + 1))"
      by (intro power_increasing) simp_all
    also have "\<dots> = 2 ^ nat (bitlen (int p) - 1) * 2 ^ (n0 + 1)" by (simp add: power_add)
    also have "\<dots> \<le> int p * 2 ^ (n0 + 1)" using bp by (intro mult_right_mono) simp_all
    finally have up: "(2::int) ^ nat (52 + bitlen (int r)) \<le> int p * 2 ^ (n0 + 1)" .
    have "(2::int) ^ 52 * int r \<le> 2 ^ 52 * 2 ^ nat (bitlen (int r))"
      using br by (intro mult_left_mono) simp_all
    also have "\<dots> = 2 ^ nat (52 + bitlen (int r))"
      using bitlen_nonneg [of "int r"] by (simp add: nat_add_distrib power_add)
    finally have "(2::int) ^ 52 * int r \<le> int p * 2 ^ (n0 + 1)" using up by linarith
    then have "int (2 ^ 52 * r) \<le> int (p * 2 ^ (n0 + 1))" by simp
    then have "2 ^ 52 * r \<le> p * 2 ^ (n0 + 1)" by (rule iffD1 [OF of_nat_le_iff])
    then show ?thesis by (simp add: sn)
  qed
qed

lemma divideDouble_error:
  assumes "0 < p" "0 < r"
  shows "\<bar>valueOf (divideDouble p r) - real p / real r\<bar> \<le> (real p / real r) / 2 ^ 53"
proof -
  define n where "n = snd (divideDouble p r)"
  have m: "fst (divideDouble p r) = roundHalfEven (p * 2 ^ n) r"
    by (simp add: divideDouble_def Let_def n_def)
  have sc: "2 ^ 52 * real r \<le> real p * 2 ^ n"
  proof -
    have "real (2 ^ 52 * r) \<le> real (p * 2 ^ n)"
      using divideDouble_scale [OF assms] unfolding n_def by (rule iffD2 [OF of_nat_le_iff])
    then show ?thesis by simp
  qed
  have e: "\<bar>real (roundHalfEven (p * 2 ^ n) r) - real (p * 2 ^ n) / real r\<bar> \<le> 1 / 2"
    by (rule roundHalfEven_real [OF assms(2)])
  have "valueOf (divideDouble p r) - real p / real r
        = (real (roundHalfEven (p * 2 ^ n) r) - real (p * 2 ^ n) / real r) / 2 ^ n"
    using assms by (simp add: valueOf_def m n_def [symmetric] field_simps)
  then have "\<bar>valueOf (divideDouble p r) - real p / real r\<bar>
        = \<bar>real (roundHalfEven (p * 2 ^ n) r) - real (p * 2 ^ n) / real r\<bar> / 2 ^ n"
    by (simp add: abs_divide)
  also have "\<dots> \<le> (1 / 2) / 2 ^ n" using e by (intro divide_right_mono) simp_all
  also have "\<dots> \<le> (real p / real r) / 2 ^ 53"
  proof -
    have "2 ^ 53 * real r \<le> 2 * (real p * 2 ^ n)" using sc by simp
    then show ?thesis using assms by (simp add: field_simps)
  qed
  finally show ?thesis .
qed


lemma roundHalfEven_one [simp]: "roundHalfEven a (Suc 0) = a"
  by (simp add: roundHalfEven_def)

lemma valueOf_scaled:
  "valueOf (if k \<le> n then (a, n - k) else (a * 2 ^ (k - n), 0)) = real a * 2 ^ k / 2 ^ n"
proof (cases "k \<le> n")
  case True
  then have "(2::real) ^ n = 2 ^ (n - k) * 2 ^ k" by (simp add: power_add [symmetric])
  then show ?thesis using True by (simp add: valueOf_def)
next
  case False
  then have "(2::real) ^ k = 2 ^ (k - n) * 2 ^ n" by (simp add: power_add [symmetric])
  then show ?thesis using False by (simp add: valueOf_def)
qed

lemma valueOf_times100:
  "valueOf (times100 (m, n))
   = real (roundHalfEven (100 * m) (2 ^ nat (bitlen (int (100 * m)) - 53)))
     * 2 ^ nat (bitlen (int (100 * m)) - 53) / 2 ^ n"
  unfolding times100_def Let_def prod.case by (rule valueOf_scaled)

lemma times100_error:
  "\<bar>valueOf (times100 (m, n)) - 100 * valueOf (m, n)\<bar> \<le> (100 * valueOf (m, n)) / 2 ^ 53"
proof -
  define M where "M = 100 * m"
  define k where "k = nat (bitlen (int M) - 53)"
  have v: "valueOf (times100 (m, n)) = real (roundHalfEven M (2 ^ k)) * 2 ^ k / 2 ^ n"
    by (simp only: valueOf_times100 M_def k_def)
  have w: "100 * valueOf (m, n) = real M / 2 ^ n"
    by (simp add: valueOf_def M_def)
  have num: "\<bar>real (roundHalfEven M (2 ^ k)) * 2 ^ k - real M\<bar> \<le> real M / 2 ^ 53"
  proof (cases "k = 0")
    case True
    then show ?thesis by simp
  next
    case False
    then have bl: "bitlen (int M) = int k + 53" by (simp add: k_def)
    then have "0 < int M" using bitlen_eq_zero_iff [of "int M"] by auto
    from bitlen_bounds [OF this] have "2 ^ nat (bitlen (int M) - 1) \<le> int M" by simp
    moreover have "nat (bitlen (int M) - 1) = k + 52" using bl by simp
    ultimately have "(2::int) ^ (k + 52) \<le> int M" by simp
    then have "real_of_int (2 ^ (k + 52)) \<le> real_of_int (int M)"
      by (rule iffD2 [OF of_int_le_iff])
    then have big: "(2::real) ^ k * 2 ^ 52 \<le> real M" by (simp add: power_add)
    have e: "\<bar>real (roundHalfEven M (2 ^ k)) - real M / real (2 ^ k)\<bar> \<le> 1 / 2"
      by (rule roundHalfEven_real) simp
    have "real (roundHalfEven M (2 ^ k)) * 2 ^ k - real M
          = (real (roundHalfEven M (2 ^ k)) - real M / real (2 ^ k)) * 2 ^ k"
      by (simp add: field_simps)
    then have "\<bar>real (roundHalfEven M (2 ^ k)) * 2 ^ k - real M\<bar>
          = \<bar>real (roundHalfEven M (2 ^ k)) - real M / real (2 ^ k)\<bar> * 2 ^ k"
      by (simp add: abs_mult)
    also have "\<dots> \<le> (1 / 2) * 2 ^ k" using e by (intro mult_right_mono) simp_all
    also have "\<dots> \<le> real M / 2 ^ 53" using big by simp
    finally show ?thesis .
  qed
  have "valueOf (times100 (m, n)) - 100 * valueOf (m, n)
        = (real (roundHalfEven M (2 ^ k)) * 2 ^ k - real M) / 2 ^ n"
    by (simp add: v w diff_divide_distrib)
  then have "\<bar>valueOf (times100 (m, n)) - 100 * valueOf (m, n)\<bar>
        = \<bar>real (roundHalfEven M (2 ^ k)) * 2 ^ k - real M\<bar> / 2 ^ n"
    by (simp add: abs_divide)
  also have "\<dots> \<le> (real M / 2 ^ 53) / 2 ^ n" using num by (intro divide_right_mono) simp_all
  also have "\<dots> = (100 * valueOf (m, n)) / 2 ^ 53" by (simp add: w)
  finally show ?thesis .
qed

lemma mathRound_floor: "int (mathRound x) = \<lfloor>valueOf x + 1 / 2\<rfloor>"
proof -
  obtain m n where x: "x = (m, n)" by (cases x)
  have "valueOf x + 1 / 2 = real (2 * m + 2 ^ n) / real (2 ^ (n + 1))"
    by (simp add: x valueOf_def field_simps)
  then have "\<lfloor>valueOf x + 1 / 2\<rfloor> = \<lfloor>real (2 * m + 2 ^ n) / real (2 ^ (n + 1))\<rfloor>" by simp
  also have "\<dots> = int ((2 * m + 2 ^ n) div 2 ^ (n + 1))"
    by (rule floor_divide_of_nat_eq)
  finally show ?thesis by (simp add: x mathRound_def)
qed


lemma percentageOf_nearest:
  assumes r: "0 < r" "r < 2 ^ 32" and p: "p \<le> r"
  shows "2 * \<bar>int (percentageOf p r) * int r - 100 * int p\<bar> \<le> int r"
proof (cases "p = 0")
  case True
  then show ?thesis using r by (simp add: percentageOf_def)
next
  case False
  then have p0: "0 < p" by simp
  define q where "q = real p / real r"
  define q' where "q' = valueOf (divideDouble p r)"
  define y where "y = valueOf (times100 (divideDouble p r))"
  define u :: real where "u = 1 / 2 ^ 53"
  have q01: "0 < q" "q \<le> 1" using p0 r p by (simp_all add: q_def)
  have u0: "0 < u" "u \<le> 1" by (simp_all add: u_def)
  have e1: "\<bar>q' - q\<bar> \<le> q * u"
    using divideDouble_error [OF p0 r(1)] by (simp add: q_def q'_def u_def)
  have e2: "\<bar>y - 100 * q'\<bar> \<le> 100 * q' * u"
    using times100_error [of "fst (divideDouble p r)" "snd (divideDouble p r)"]
    by (simp add: y_def q'_def u_def)
  have q'b: "q' \<le> q * (1 + u)" using e1 by (simp add: algebra_simps abs_le_iff)
  have "100 * q' * u \<le> 100 * (q * (1 + u)) * u"
    using q'b u0 by (intro mult_right_mono mult_left_mono) simp_all
  with e2 have e2': "\<bar>y - 100 * q'\<bar> \<le> 100 * (q * (1 + u)) * u" by linarith
  have "y - 100 * q = (y - 100 * q') + 100 * (q' - q)" by simp
  then have "\<bar>y - 100 * q\<bar> \<le> \<bar>y - 100 * q'\<bar> + \<bar>100 * (q' - q)\<bar>"
    by (simp only: abs_triangle_ineq)
  moreover have "\<bar>100 * (q' - q)\<bar> = 100 * \<bar>q' - q\<bar>"
    by (simp only: abs_mult)
  ultimately have "\<bar>y - 100 * q\<bar> \<le> \<bar>y - 100 * q'\<bar> + 100 * \<bar>q' - q\<bar>"
    by (simp only:)
  also have "\<dots> \<le> 100 * (q * (1 + u)) * u + 100 * (q * u)" using e1 e2' by simp
  also have "\<dots> = q * (100 * u * (2 + u))" by (simp add: algebra_simps)
  also have "\<dots> \<le> 1 * (100 * u * (2 + u))"
    using q01 u0 by (intro mult_right_mono) simp_all
  also have "\<dots> \<le> 300 * u"
  proof -
    have "u * (2 + u) \<le> u * 3" using u0 by (intro mult_left_mono) simp_all
    then show ?thesis by simp
  qed
  finally have err: "\<bar>y - 100 * q\<bar> \<le> 300 * u" .
  define n where "n = percentageOf p r"
  have n: "int n = \<lfloor>y + 1 / 2\<rfloor>"
    using p0 r(1) by (simp add: n_def percentageOf_def mathRound_floor y_def)
  have up: "real n \<le> y + 1 / 2" and lo: "y + 1 / 2 < real n + 1"
    using n by linarith+
  define D where "D = int n * int r - 100 * int p"
  have rr: "0 < real r" "real r < 2 ^ 32"
    using r by (simp_all add: of_nat_less_numeral_power_cancel_iff)
  have D: "real_of_int D = real r * (real n - 100 * q)"
    using r(1) by (simp add: D_def q_def field_simps)
  have ur: "600 * u * real r < 1"
  proof -
    have "600 * u * real r \<le> 600 * u * 2 ^ 32"
      using rr u0 by (intro mult_left_mono) simp_all
    also have "\<dots> < 1" by (simp add: u_def)
    finally show ?thesis .
  qed
  have hi: "real n - 100 * q \<le> 1 / 2 + 300 * u" using up err by linarith
  have lw: "- (1 / 2) - 300 * u < real n - 100 * q" using lo err by linarith
  have "real r * (real n - 100 * q) \<le> real r * (1 / 2 + 300 * u)"
    using hi rr by (intro mult_left_mono) simp_all
  then have "2 * real_of_int D \<le> real r + 600 * u * real r"
    by (simp add: D algebra_simps)
  then have "real_of_int (2 * D) < real_of_int (int r + 1)" using ur by simp
  then have h1: "2 * D < int r + 1" by (rule iffD1 [OF of_int_less_iff])
  have "real r * (- (1 / 2) - 300 * u) < real r * (real n - 100 * q)"
    using lw rr by (intro mult_strict_left_mono) simp_all
  then have "- real r - 600 * u * real r < 2 * real_of_int D"
    by (simp add: D algebra_simps)
  then have "real_of_int (- int r - 1) < real_of_int (2 * D)" using ur by simp
  then have h2: "- int r - 1 < 2 * D" by (rule iffD1 [OF of_int_less_iff])
  from h1 h2 show ?thesis unfolding D_def n_def by linarith
qed

text \<open>
  C2, as stated, fails for the progress calculator: it counts as required every document
  that is flagged required or whose pooled conditions are met, so with no document
  flagged required (and the dossier state \<open>TO_BUILD\<close>) the percentage can be 0, not 100.
\<close>

theorem progress_unflagged_counterexample:
  "length (filter required [unflaggedDocument]) = 0
   \<and> calculateDossierState [unflaggedDocument] = TO_BUILD
   \<and> requiredCount (calculateProgress exampleBag [unflaggedDocument]) = 1
   \<and> percentage (calculateProgress exampleBag [unflaggedDocument]) = 0"
  unfolding example_simps unflaggedDocument_def by code_simp

lemma calculateDossierState_cases:
  "calculateDossierState docs =
     (if \<not> (\<exists>d \<in> set docs. required d) then TO_BUILD
      else if (\<exists>d \<in> set docs. provided d) then
        (if (\<forall>d \<in> set docs. required d \<longrightarrow> provided d) then COMPLETE else INCOMPLETE)
      else TO_BUILD)"
  by (auto simp: calculateDossierState_def Let_def list_ex_iff)

lemma countsAsRequired_iff:
  "countsAsRequired properties doc
   \<longleftrightarrow> required doc \<or> (getAllConditions doc \<noteq> [] \<and> checkDocumentConditions doc properties None)"
  by (simp add: countsAsRequired_def Let_def)

lemma calculateProgress_counts:
  "requiredCount (calculateProgress properties docs)
     = length (filter (countsAsRequired properties) docs)"
  "providedCount (calculateProgress properties docs)
     = length (filter (\<lambda>doc. provided doc) (filter (countsAsRequired properties) docs))"
  "percentage (calculateProgress properties docs)
     = percentageOf (providedCount (calculateProgress properties docs))
         (requiredCount (calculateProgress properties docs))"
  by (simp_all add: calculateProgress_def Let_def)

text \<open>
  C2, amended. The dossier state is \<open>TO_BUILD\<close> when no document is required; otherwise,
  if any document is provided, \<open>COMPLETE\<close> iff every required document is provided and
  \<open>INCOMPLETE\<close> if not; otherwise \<open>TO_BUILD\<close>. The progress calculator counts as required
  the documents flagged required or having conditions that are met (pooled over their
  views), and as provided those of them that are provided; the percentage is 100 when
  that required count is zero, and otherwise an integer nearest to
  \<open>100 * provided / required\<close> (for any array a JavaScript engine can hold, fewer than
  \<open>2 ^ 32\<close> documents).
\<close>

theorem completion_calculator:
  "(\<not> (\<exists>d \<in> set docs. required d) \<longrightarrow> calculateDossierState docs = TO_BUILD)
   \<and> ((\<exists>d \<in> set docs. required d) \<and> (\<exists>d \<in> set docs. provided d) \<longrightarrow>
        calculateDossierState docs
        = (if (\<forall>d \<in> set docs. required d \<longrightarrow> provided d) then COMPLETE else INCOMPLETE))
   \<and> ((\<exists>d \<in> set docs. required d) \<and> \<not> (\<exists>d \<in> set docs. provided d) \<longrightarrow>
        calculateDossierState docs = TO_BUILD)
   \<and> requiredCount (calculateProgress properties docs)
       = length (filter (\<lambda>d. required d
                   \<or> (getAllConditions d \<noteq> [] \<and> checkDocumentConditions d properties None)) docs)
   \<and> providedCount (calculateProgress properties docs)
       = length (filter (\<lambda>d. provided d \<and> (required d
                   \<or> (getAllConditions d \<noteq> [] \<and> checkDocumentConditions d properties None))) docs)
   \<and> (requiredCount (calculateProgress properties docs) = 0 \<longrightarrow>
        percentage (calculateProgress properties docs) = 100)
   \<and> (0 < requiredCount (calculateProgress properties docs) \<and> length docs < 2 ^ 32 \<longrightarrow>
        2 * \<bar>int (percentage (calculateProgress properties docs))
               * int (requiredCount (calculateProgress properties docs))
             - 100 * int (providedCount (calculateProgress properties docs))\<bar>
        \<le> int (requiredCount (calculateProgress properties docs)))"
proof (intro conjI impI)
  let ?R = "requiredCount (calculateProgress properties docs)"
  let ?P = "providedCount (calculateProgress properties docs)"
  show "\<not> (\<exists>d \<in> set docs. required d) \<Longrightarrow> calculateDossierState docs = TO_BUILD"
    by (simp add: calculateDossierState_cases)
  show "(\<exists>d \<in> set docs. required d) \<and> (\<exists>d \<in> set docs. provided d) \<Longrightarrow>
        calculateDossierState docs
        = (if (\<forall>d \<in> set docs. required d \<longrightarrow> provided d) then COMPLETE else INCOMPLETE)"
    by (simp add: calculateDossierState_cases)
  show "(\<exists>d \<in> set docs. required d) \<and> \<not> (\<exists>d \<in> set docs. provided d) \<Longrightarrow>
        calculateDossierState docs = TO_BUILD"
    by (simp add: calculateDossierState_cases)
  show "?R = length (filter (\<lambda>d. required d
                   \<or> (getAllConditions d \<noteq> [] \<and> checkDocumentConditions d properties None)) docs)"
    by (simp add: calculateProgress_counts countsAsRequired_iff [abs_def])
  show "?P = length (filter (\<lambda>d. provided d \<and> (required d
                   \<or> (getAllConditions d \<noteq> [] \<and> checkDocumentConditions d properties None))) docs)"
    by (simp add: calculateProgress_counts countsAsRequired_iff [abs_def] conj_commute)
  show "?R = 0 \<Longrightarrow> percentage (calculateProgress properties docs) = 100"
    by (simp add: calculateProgress_counts(3) percentageOf_def)
  show "0 < ?R \<and> length docs < 2 ^ 32 \<Longrightarrow>
        2 * \<bar>int (percentage (calculateProgress properties docs)) * int ?R - 100 * int ?P\<bar>
        \<le> int ?R"
  proof -
    assume a: "0 < ?R \<and> length docs < 2 ^ 32"
    have "?R \<le> length docs" by (simp add: calculateProgress_counts)
    with a have r: "?R < 2 ^ 32" by linarith
    have p: "?P \<le> ?R" unfolding calculateProgress_counts(1,2) by (rule length_filter_le)
    from percentageOf_nearest [OF _ r p] a show ?thesis
      by (simp add: calculateProgress_counts(3))
  qed
qed


theorem completion_calculator_witness:
  "calculateDossierState [exampleDocument] = COMPLETE
   \<and> calculateDossierState [unflaggedDocument] = TO_BUILD
   \<and> requiredCount (calculateProgress exampleBag [exampleDocument]) = 1
   \<and> providedCount (calculateProgress exampleBag [exampleDocument]) = 1
   \<and> percentage (calculateProgress exampleBag [exampleDocument]) = 100"
proof -
  note inst = completion_calculator [of "[exampleDocument]" exampleBag]
  have rp: "\<exists>d \<in> set [exampleDocument]. required d" "\<exists>d \<in> set [exampleDocument]. provided d"
     "\<forall>d \<in> set [exampleDocument]. required d \<longrightarrow> provided d"
    unfolding example_simps by code_simp+
  have nr: "\<not> (\<exists>d \<in> set [unflaggedDocument]. required d)"
    unfolding example_simps unflaggedDocument_def by code_simp
  have f1: "length (filter (\<lambda>d. required d
              \<or> (getAllConditions d \<noteq> [] \<and> checkDocumentConditions d exampleBag None))
              [exampleDocument]) = 1"
    unfolding example_simps by code_simp
  have f2: "length (filter (\<lambda>d. provided d \<and> (required d
              \<or> (getAllConditions d \<noteq> [] \<and> checkDocumentConditions d exampleBag None)))
              [exampleDocument]) = 1"
    unfolding example_simps by code_simp
  from inst rp have 1: "calculateDossierState [exampleDocument] = COMPLETE" by simp
  from completion_calculator [of "[unflaggedDocument]" exampleBag] nr
  have 2: "calculateDossierState [unflaggedDocument] = TO_BUILD" by blast
  from inst f1 have 3: "requiredCount (calculateProgress exampleBag [exampleDocument]) = 1"
    by simp
  from inst f2 have 4: "providedCount (calculateProgress exampleBag [exampleDocument]) = 1"
    by simp
  have l: "length [exampleDocument] < 2 ^ 32" by simp
  from inst 3 4 l
  have "2 * \<bar>int (percentage (calculateProgress exampleBag [exampleDocument])) * 1 - 100 * 1\<bar>
        \<le> (1::int)" by simp
  moreover have "\<And>x::nat. 2 * \<bar>int x * 1 - 100 * 1\<bar> \<le> (1::int) \<Longrightarrow> x = 100" by arith
  ultimately have 5: "percentage (calculateProgress exampleBag [exampleDocument]) = 100" by blast
  from 1 2 3 4 5 show ?thesis by blast
qed

section \<open>Properties: membership in a multi-value field\<close>

lemma trim_trimEnd: "trim s = trimEnd (dropWhile isWhiteSpace s)"
  by (simp add: trim_def trimEnd_def)

lemma trimEnd_Nil [simp]: "trimEnd [] = []"
  by (simp add: trimEnd_def)

lemma trimEnd_all_ws: "\<forall>c \<in> set s. isWhiteSpace c \<Longrightarrow> trimEnd s = []"
  by (simp add: trimEnd_def)

lemma trimEnd_eq_Nil: "trimEnd s = [] \<longleftrightarrow> (\<forall>c \<in> set s. isWhiteSpace c)"
  by (auto simp: trimEnd_def dropWhile_eq_Nil_conv)

lemma trimEnd_Cons:
  "trimEnd (c # cs) = (if \<forall>x \<in> set (c # cs). isWhiteSpace x then [] else c # trimEnd cs)"
  by (auto simp: trimEnd_def dropWhile_append)

lemma trimEnd_append_sep:
  "\<not> isWhiteSpace sep \<Longrightarrow> trimEnd (a @ sep # b) = a @ sep # trimEnd b"
  by (auto simp: trimEnd_def dropWhile_append)

lemma trim_eq_Nil: "trim s = [] \<longleftrightarrow> (\<forall>c \<in> set s. isWhiteSpace c)"
proof -
  have "(\<forall>c \<in> set (dropWhile isWhiteSpace s). isWhiteSpace c) \<longleftrightarrow> (\<forall>c \<in> set s. isWhiteSpace c)"
    by (induction s) auto
  then show ?thesis by (simp add: trim_trimEnd trimEnd_eq_Nil)
qed

lemma dropWhile_trimEnd:
  "dropWhile isWhiteSpace (trimEnd s) = trimEnd (dropWhile isWhiteSpace s)"
proof (induction s)
  case Nil then show ?case by simp
next
  case (Cons c cs)
  show ?case
  proof (cases "\<forall>x \<in> set (c # cs). isWhiteSpace x")
    case True
    then have "trimEnd (dropWhile isWhiteSpace (c # cs)) = []"
      by (intro trimEnd_all_ws) (auto dest: set_dropWhileD)
    moreover have "trimEnd (c # cs) = []" using True by (intro trimEnd_all_ws)
    ultimately show ?thesis by simp
  next
    case False
    show ?thesis
    proof (cases "isWhiteSpace c")
      case True
      with False Cons show ?thesis by (auto simp: trimEnd_Cons)
    next
      case nw: False
      then show ?thesis by (simp add: trimEnd_Cons)
    qed
  qed
qed

lemma trimEnd_idem [simp]: "trimEnd (trimEnd s) = trimEnd s"
proof (induction s)
  case Nil then show ?case by simp
next
  case (Cons c cs)
  show ?case
  proof (cases "\<forall>x \<in> set (c # cs). isWhiteSpace x")
    case True then show ?thesis by (simp add: trimEnd_Cons)
  next
    case False
    then have "trimEnd (c # cs) = c # trimEnd cs" by (simp add: trimEnd_Cons)
    moreover from False have "\<not> (\<forall>x \<in> set (c # trimEnd cs). isWhiteSpace x)"
      using trimEnd_eq_Nil [of cs] trimEnd_eq_Nil [of "trimEnd cs"] Cons by auto
    ultimately show ?thesis using Cons by (simp add: trimEnd_Cons)
  qed
qed

lemma dropWhile_idem [simp]:
  "dropWhile isWhiteSpace (dropWhile isWhiteSpace s) = dropWhile isWhiteSpace s"
  by (induction s) auto

lemma trim_dropWhile [simp]: "trim (dropWhile isWhiteSpace s) = trim s"
  by (simp add: trim_trimEnd)

lemma trim_of_trimEnd [simp]: "trim (trimEnd s) = trim s"
  by (simp add: trim_trimEnd dropWhile_trimEnd)

lemma trim_idem [simp]: "trim (trim s) = trim s"
  by (simp add: trim_trimEnd dropWhile_trimEnd)

lemma normalize_dropWhile [simp]:
  "normalizeForComparison (dropWhile isWhiteSpace s) = normalizeForComparison s"
  by (simp add: normalizeForComparison_def)

lemma normalize_trimEnd [simp]: "normalizeForComparison (trimEnd s) = normalizeForComparison s"
  by (simp add: normalizeForComparison_def)

lemma normalize_trim [simp]: "normalizeForComparison (trim s) = normalizeForComparison s"
  by (simp add: normalizeForComparison_def)

lemma collapseWhiteSpace_eq_Nil [simp]: "collapseWhiteSpace s = [] \<longleftrightarrow> s = []"
  by (cases s) auto

lemma normalize_eq_Nil: "normalizeForComparison s = [] \<longleftrightarrow> trim s = []"
  by (simp add: normalizeForComparison_def)


lemma split_not_Nil [simp]: "split sep s \<noteq> []"
  by (induction s) (auto split: list.splits)

lemma split_no_sep: "sep \<notin> set s \<Longrightarrow> split sep s = [s]"
  by (induction s) auto

lemma split_append_sep:
  "sep \<notin> set a \<Longrightarrow> split sep (a @ sep # b) = a # split sep b"
  by (induction a) auto

lemma split_mem_no_sep: "x \<in> set (split sep s) \<Longrightarrow> sep \<notin> set x"
proof (induction s arbitrary: x)
  case Nil then show ?case by simp
next
  case (Cons c cs)
  obtain y ys where sp: "split sep cs = y # ys" by (cases "split sep cs") simp_all
  show ?case
  proof (cases "c = sep")
    case True
    with Cons show ?thesis by auto
  next
    case False
    with Cons.prems sp have "x = c # y \<or> x \<in> set ys" by simp
    then show ?thesis using Cons.IH [of y] Cons.IH [of x] sp False by auto
  qed
qed

lemma join_split: "join [sep] (split sep s) = s"
proof (induction s)
  case Nil then show ?case by simp
next
  case (Cons c cs)
  obtain y ys where sp: "split sep cs = y # ys" by (cases "split sep cs") simp_all
  show ?case
  proof (cases "c = sep")
    case True
    with Cons sp show ?thesis by simp
  next
    case False
    with Cons sp show ?thesis by (cases ys) simp_all
  qed
qed

lemma split_join:
  "xs \<noteq> [] \<Longrightarrow> \<forall>x \<in> set xs. sep \<notin> set x \<Longrightarrow> split sep (join [sep] xs) = xs"
proof (induction xs)
  case Nil
  then show ?case by simp
next
  case (Cons x xs)
  show ?case
  proof (cases xs)
    case Nil
    with Cons.prems show ?thesis by (simp add: split_no_sep)
  next
    case (Cons y ys)
    with Cons.prems Cons.IH show ?thesis by (simp add: split_append_sep)
  qed
qed

lemma join_Cons_dropWhile:
  assumes "\<not> isWhiteSpace sep"
  shows "dropWhile isWhiteSpace (join [sep] (x # xs)) = join [sep] (dropWhile isWhiteSpace x # xs)"
proof (cases xs)
  case Nil then show ?thesis by simp
next
  case (Cons y ys)
  then show ?thesis using assms by (auto simp: dropWhile_append dropWhile_eq_Nil_conv)
qed

lemma join_snoc:
  "join sep (xs @ [x]) = (if xs = [] then x else join sep xs @ sep @ x)"
  by (induction sep xs rule: join.induct) auto

lemma join_snoc_trimEnd:
  assumes "\<not> isWhiteSpace sep"
  shows "trimEnd (join [sep] (xs @ [x])) = join [sep] (xs @ [trimEnd x])"
  using assms by (simp add: join_snoc trimEnd_append_sep)

lemma set_dropWhile_ws: "set (dropWhile isWhiteSpace s) \<subseteq> set s"
  by (auto dest: set_dropWhileD)

lemma set_trimEnd: "set (trimEnd s) \<subseteq> set s"
  by (auto simp: trimEnd_def dest: set_dropWhileD)

lemma split_dropWhile:
  assumes "\<not> isWhiteSpace sep"
  shows "split sep (dropWhile isWhiteSpace s)
         = dropWhile isWhiteSpace (hd (split sep s)) # tl (split sep s)"
proof -
  obtain x xs where sp: "split sep s = x # xs" by (cases "split sep s") simp_all
  have ns: "\<forall>y \<in> set (x # xs). sep \<notin> set y"
    using split_mem_no_sep [of _ sep s] sp by auto
  have "dropWhile isWhiteSpace s = dropWhile isWhiteSpace (join [sep] (x # xs))"
    using join_split [of sep s] sp by simp
  also have "\<dots> = join [sep] (dropWhile isWhiteSpace x # xs)"
    by (rule join_Cons_dropWhile [OF assms])
  finally have "split sep (dropWhile isWhiteSpace s)
                = split sep (join [sep] (dropWhile isWhiteSpace x # xs))" by simp
  also have "\<dots> = dropWhile isWhiteSpace x # xs"
    using ns set_dropWhile_ws [of x] by (intro split_join) auto
  finally show ?thesis by (simp add: sp)
qed

lemma split_trimEnd:
  assumes "\<not> isWhiteSpace sep"
  shows "split sep (trimEnd s) = butlast (split sep s) @ [trimEnd (last (split sep s))]"
proof -
  obtain ys y where sp: "split sep s = ys @ [y]"
    using split_not_Nil [of sep s] by (metis rev_exhaust)
  have ns: "\<forall>z \<in> set (ys @ [y]). sep \<notin> set z"
    using split_mem_no_sep [of _ sep s] sp by auto
  have "trimEnd s = trimEnd (join [sep] (ys @ [y]))"
    using join_split [of sep s] sp by simp
  also have "\<dots> = join [sep] (ys @ [trimEnd y])"
    by (rule join_snoc_trimEnd [OF assms])
  finally have "split sep (trimEnd s) = split sep (join [sep] (ys @ [trimEnd y]))" by simp
  also have "\<dots> = ys @ [trimEnd y]"
    using ns set_trimEnd [of y] by (intro split_join) auto
  finally show ?thesis by (simp add: sp)
qed

lemma map_normalize_split_trim:
  assumes "\<not> isWhiteSpace sep"
  shows "map normalizeForComparison (split sep (trim s)) = map normalizeForComparison (split sep s)"
proof -
  let ?t = "dropWhile isWhiteSpace s"
  have a: "map normalizeForComparison (split sep ?t) = map normalizeForComparison (split sep s)"
  proof -
    obtain x xs where sp: "split sep s = x # xs" by (cases "split sep s") simp_all
    show ?thesis by (simp add: split_dropWhile [OF assms] sp)
  qed
  have b: "map normalizeForComparison (split sep (trimEnd ?t))
           = map normalizeForComparison (split sep ?t)"
  proof -
    obtain ys y where sp: "split sep ?t = ys @ [y]"
      using split_not_Nil [of sep ?t] by (metis rev_exhaust)
    show ?thesis by (simp add: split_trimEnd [OF assms] sp)
  qed
  show ?thesis by (simp add: trim_trimEnd a b)
qed


lemma includesStr_char: "includesStr s [c] \<longleftrightarrow> c \<in> set s"
  by (induction s) auto

lemma mem_trim_non_ws:
  assumes "\<not> isWhiteSpace c"
  shows "c \<in> set (trim s) \<longleftrightarrow> c \<in> set s"
proof -
  have d: "\<And>t. c \<in> set (dropWhile isWhiteSpace t) \<longleftrightarrow> c \<in> set t"
  proof -
    fix t show "c \<in> set (dropWhile isWhiteSpace t) \<longleftrightarrow> c \<in> set t"
      using assms by (induction t) auto
  qed
  have "c \<in> set (trim s) \<longleftrightarrow> c \<in> set (dropWhile isWhiteSpace (rev (dropWhile isWhiteSpace s)))"
    by (simp add: trim_def)
  also have "\<dots> \<longleftrightarrow> c \<in> set (rev (dropWhile isWhiteSpace s))" by (rule d)
  also have "\<dots> \<longleftrightarrow> c \<in> set s" by (simp add: d)
  finally show ?thesis .
qed

lemma not_ws_separators [simp]: "\<not> isWhiteSpace CHR '';''" "\<not> isWhiteSpace CHR '',''"
  by (simp_all add: isWhiteSpace_def)

lemma evaluateCondition_in:
  "operator c = ''in'' \<Longrightarrow>
   evaluateCondition c properties
   = evaluateIn (lookupProperty properties (property c))
       (if truthy (lookupProperty properties (property c))
        then trim (String (lookupProperty properties (property c))) else [])
       (trim (value c))"
  by (simp add: evaluateCondition_def Let_def)

lemma evaluateIn_string:
  "evaluateIn (JStr s) (if truthy (JStr s) then trim (String (JStr s)) else []) (trim cv)
   \<longleftrightarrow> normalizeForComparison cv \<in> specItemSet (JStr s)"
proof (cases "trim s = []")
  case True
  then have ws: "\<forall>c \<in> set s. isWhiteSpace c" by (simp add: trim_eq_Nil)
  then have "CHR '';'' \<notin> set s" "CHR '','' \<notin> set s" by auto
  then have "specItemSet (JStr s) = {}"
    using True by (simp add: specItemSet_def normalize_eq_Nil)
  moreover have "\<not> evaluateIn (JStr s) (if truthy (JStr s) then trim (String (JStr s)) else [])
                     (trim cv)"
    using True by (simp add: evaluateIn_def)
  ultimately show ?thesis by simp
next
  case False
  then have ne: "s \<noteq> []" by (auto simp: trim_def)
  have n: "normalizeForComparison s \<noteq> []" using False by (simp add: normalize_eq_Nil)
  show ?thesis
    using False ne n
    by (auto simp: evaluateIn_def Let_def specItemSet_def includesStr_char mem_trim_non_ws
        list_ex_iff map_normalize_split_trim)
qed

lemma set_join_subset: "x \<in> set xs \<Longrightarrow> set x \<subseteq> set (join sep xs)"
  by (induction sep xs rule: join.induct) auto

lemma evaluateIn_list:
  assumes "collapsedList c xs"
  shows "evaluateIn (JArr xs) (if truthy (JArr xs) then trim (String (JArr xs)) else [])
           (trim (value c))
         \<longleftrightarrow> normalizeForComparison (value c) \<in> specItemSet (JArr xs)"
proof -
  from assms have cv: "trim (value c) \<noteq> []" "normalizeForComparison (value c) = trim (value c)"
    and xs: "\<forall>x \<in> set xs. normalizeForComparison x = trim x"
    by (simp_all add: collapsedList_def list_all_iff)
  have R: "normalizeForComparison (value c) \<in> specItemSet (JArr xs)
           \<longleftrightarrow> (\<exists>x \<in> set xs. trim x = trim (value c))"
    using cv xs by (auto simp: specItemSet_def image_iff) metis+
  show ?thesis
  proof (cases "trim (join '','' xs) = []")
    case True
    then have "\<forall>ch \<in> set (join '','' xs). isWhiteSpace ch" by (simp add: trim_eq_Nil)
    then have "\<forall>x \<in> set xs. \<forall>ch \<in> set x. isWhiteSpace ch"
      using set_join_subset [of _ xs "'',''"] by blast
    then have "\<forall>x \<in> set xs. trim x = []" by (simp add: trim_eq_Nil)
    then have "\<not> (\<exists>x \<in> set xs. trim x = trim (value c))" using cv by auto
    moreover have "\<not> evaluateIn (JArr xs) (if truthy (JArr xs) then trim (String (JArr xs)) else [])
           (trim (value c))"
      using True by (simp add: evaluateIn_def)
    ultimately show ?thesis using R by simp
  next
    case False
    then have "evaluateIn (JArr xs) (if truthy (JArr xs) then trim (String (JArr xs)) else [])
           (trim (value c)) \<longleftrightarrow> (\<exists>x \<in> set xs. trim x = trim (value c))"
      by (simp add: evaluateIn_def Let_def list_ex_iff)
    then show ?thesis using R by simp
  qed
qed


lemma evaluateCondition_in_items:
  assumes "operator c = ''in''" "collapsedRepresentation c (lookupProperty properties (property c))"
  shows "evaluateCondition c properties
         \<longleftrightarrow> normalizeForComparison (value c)
               \<in> specItemSet (lookupProperty properties (property c))"
proof (cases "lookupProperty properties (property c)")
  case (JStr s)
  show ?thesis
    unfolding evaluateCondition_in [OF assms(1)] JStr by (rule evaluateIn_string)
next
  case (JArr xs)
  with assms(2) have "collapsedList c xs" by simp
  then show ?thesis
    unfolding evaluateCondition_in [OF assms(1)] JArr by (rule evaluateIn_list)
qed (use assms(2) in simp_all)

text \<open>
  C6, as stated, fails: a native list is compared by trimmed equality only, while the
  items of a separated string are also whitespace-collapsed. The list \<open>["A  B", "C"]\<close>
  and the strings \<open>"A  B;C"\<close> and \<open>"A  B,C"\<close> have the same trimmed, collapsed item set,
  yet the condition value \<open>"A B"\<close> matches in both strings and not in the list.
\<close>

theorem in_list_not_collapsed_counterexample:
  "specItemSet (JArr [''A  B'', ''C'']) = specItemSet (JStr ''A  B;C'')
   \<and> specItemSet (JStr ''A  B;C'') = specItemSet (JStr ''A  B,C'')
   \<and> evaluateCondition \<lparr>property = ''langues'', operator = ''in'', value = ''A B''\<rparr>
        [(''langues'', JArr [''A  B'', ''C''])] = False
   \<and> evaluateCondition \<lparr>property = ''langues'', operator = ''in'', value = ''A B''\<rparr>
        [(''langues'', JStr ''A  B;C'')] = True
   \<and> evaluateCondition \<lparr>property = ''langues'', operator = ''in'', value = ''A B''\<rparr>
        [(''langues'', JStr ''A  B,C'')] = True"
  by code_simp

text \<open>
  C6, amended. For a condition with operator \<open>in\<close>: an absent, null or empty bag value
  yields false. For a string, in either separator or with none, the result is the
  membership of the trimmed, collapsed condition value in the item set of the string;
  for a native list it is so when the condition value is not blank and neither it nor
  the list items hold white space to collapse. Hence two such representations with
  equal item sets give the same result.
\<close>

theorem in_membership_invariant:
  assumes "operator c = ''in''"
  shows "(lookupProperty properties (property c) \<in> {JUndefined, JNull, JStr [], JArr []}
          \<longrightarrow> \<not> evaluateCondition c properties)
   \<and> (collapsedRepresentation c (lookupProperty properties (property c))
        \<longrightarrow> (evaluateCondition c properties
             \<longleftrightarrow> normalizeForComparison (value c)
                   \<in> specItemSet (lookupProperty properties (property c))))
   \<and> (collapsedRepresentation c (lookupProperty properties (property c))
        \<and> collapsedRepresentation c (lookupProperty properties' (property c))
        \<and> specItemSet (lookupProperty properties (property c))
            = specItemSet (lookupProperty properties' (property c))
        \<longrightarrow> evaluateCondition c properties = evaluateCondition c properties')"
proof (intro conjI impI)
  assume "lookupProperty properties (property c) \<in> {JUndefined, JNull, JStr [], JArr []}"
  then show "\<not> evaluateCondition c properties"
    using assms by (auto simp: evaluateCondition_in evaluateIn_def trim_def)
next
  assume "collapsedRepresentation c (lookupProperty properties (property c))"
  then show "evaluateCondition c properties
             \<longleftrightarrow> normalizeForComparison (value c)
                   \<in> specItemSet (lookupProperty properties (property c))"
    by (rule evaluateCondition_in_items [OF assms])
next
  assume a: "collapsedRepresentation c (lookupProperty properties (property c))
        \<and> collapsedRepresentation c (lookupProperty properties' (property c))
        \<and> specItemSet (lookupProperty properties (property c))
            = specItemSet (lookupProperty properties' (property c))"
  then show "evaluateCondition c properties = evaluateCondition c properties'"
    using evaluateCondition_in_items [OF assms, of properties]
      evaluateCondition_in_items [OF assms, of properties'] by simp
qed

theorem in_membership_invariant_witness:
  "evaluateCondition \<lparr>property = ''langues'', operator = ''in'', value = ''Arabe''\<rparr>
     [(''langues'', JArr [''Francais'', '' Arabe ''])] = True
   \<and> evaluateCondition \<lparr>property = ''langues'', operator = ''in'', value = ''Arabe''\<rparr>
     [(''langues'', JStr ''Francais; Arabe '')] = True
   \<and> evaluateCondition \<lparr>property = ''langues'', operator = ''in'', value = ''Arabe''\<rparr>
     [(''langues'', JStr ''Francais, Arabe'')] = True
   \<and> evaluateCondition \<lparr>property = ''langues'', operator = ''in'', value = ''Arabe''\<rparr>
     [(''langues'', JStr [])] = False"
proof -
  let ?c = "\<lparr>property = ''langues'', operator = ''in'', value = ''Arabe''\<rparr>"
  let ?l = "[(''langues'', JArr [''Francais'', '' Arabe ''])]"
  let ?s = "[(''langues'', JStr ''Francais; Arabe '')]"
  let ?k = "[(''langues'', JStr ''Francais, Arabe'')]"
  let ?e = "[(''langues'', JStr [])]"
  have op: "operator ?c = ''in''" by simp
  have rl: "collapsedRepresentation ?c (lookupProperty ?l (property ?c))" by code_simp
  have rs: "collapsedRepresentation ?c (lookupProperty ?s (property ?c))" by code_simp
  have rk: "collapsedRepresentation ?c (lookupProperty ?k (property ?c))" by code_simp
  have m: "normalizeForComparison (value ?c) \<in> specItemSet (lookupProperty ?l (property ?c))"
    by code_simp
  have ls: "specItemSet (lookupProperty ?l (property ?c))
            = specItemSet (lookupProperty ?s (property ?c))" by code_simp
  have sk: "specItemSet (lookupProperty ?s (property ?c))
            = specItemSet (lookupProperty ?k (property ?c))" by code_simp
  have em: "lookupProperty ?e (property ?c) \<in> {JUndefined, JNull, JStr [], JArr []}"
    by code_simp
  from in_membership_invariant [OF op, of ?l] rl m
  have 1: "evaluateCondition ?c ?l = True" by blast
  from in_membership_invariant [OF op, of ?l ?s] rl rs ls
  have 2: "evaluateCondition ?c ?l = evaluateCondition ?c ?s" by blast
  from in_membership_invariant [OF op, of ?s ?k] rs rk sk
  have 3: "evaluateCondition ?c ?s = evaluateCondition ?c ?k" by blast
  from in_membership_invariant [OF op, of ?e] em
  have 4: "evaluateCondition ?c ?e = False" by blast
  from 1 2 3 4 show ?thesis by simp
qed

section \<open>Properties: the view router\<close>

lemma scanTabConfig_None:
  "scanTabConfig nv tcs = None
   \<longleftrightarrow> (\<forall>(t, cfg) \<in> set tcs. \<forall>c \<in> set (conditions cfg). \<not> isNatureCondition nv c)"
  by (induction nv tcs rule: scanTabConfig.induct) (auto simp: list_ex_iff)

lemma scanTabConfig_Some:
  "scanTabConfig nv tcs = Some t
   \<longleftrightarrow> (\<exists>pre cfg post. tcs = pre @ (t, cfg) # post
          \<and> (\<exists>c \<in> set (conditions cfg). isNatureCondition nv c)
          \<and> (\<forall>(t', cfg') \<in> set pre. \<forall>c \<in> set (conditions cfg'). \<not> isNatureCondition nv c))"
proof (induction nv tcs rule: scanTabConfig.induct)
  case (1 nv)
  then show ?case by simp
next
  case (2 nv tabId cfg rest)
  show ?case
  proof (cases "list_ex (isNatureCondition nv) (conditions cfg)")
    case True
    then have m: "\<exists>c \<in> set (conditions cfg). isNatureCondition nv c" by (simp add: list_ex_iff)
    show ?thesis
    proof
      assume "scanTabConfig nv ((tabId, cfg) # rest) = Some t"
      with True have "t = tabId" by simp
      with m show "\<exists>pre cfg' post. (tabId, cfg) # rest = pre @ (t, cfg') # post
          \<and> (\<exists>c \<in> set (conditions cfg'). isNatureCondition nv c)
          \<and> (\<forall>(t', cfg') \<in> set pre. \<forall>c \<in> set (conditions cfg'). \<not> isNatureCondition nv c)"
        by (intro exI [of _ "[]"] exI [of _ cfg] exI [of _ rest]) simp
    next
      assume "\<exists>pre cfg' post. (tabId, cfg) # rest = pre @ (t, cfg') # post
          \<and> (\<exists>c \<in> set (conditions cfg'). isNatureCondition nv c)
          \<and> (\<forall>(t', cfg') \<in> set pre. \<forall>c \<in> set (conditions cfg'). \<not> isNatureCondition nv c)"
      then obtain pre cfg' post where d: "(tabId, cfg) # rest = pre @ (t, cfg') # post"
        and p: "\<forall>(t', cfg') \<in> set pre. \<forall>c \<in> set (conditions cfg'). \<not> isNatureCondition nv c"
        by blast
      have "pre = []"
      proof (cases pre)
        case Nil then show ?thesis .
      next
        case (Cons e es)
        with d have "e = (tabId, cfg)" by simp
        with Cons p m show ?thesis by auto
      qed
      with d have "t = tabId" by simp
      with True show "scanTabConfig nv ((tabId, cfg) # rest) = Some t" by simp
    qed
  next
    case False
    then have nm: "\<forall>c \<in> set (conditions cfg). \<not> isNatureCondition nv c" by (simp add: list_ex_iff)
    show ?thesis
    proof
      assume "scanTabConfig nv ((tabId, cfg) # rest) = Some t"
      with False have "scanTabConfig nv rest = Some t" by simp
      with 2 False obtain pre cfg' post where "rest = pre @ (t, cfg') # post"
          "\<exists>c \<in> set (conditions cfg'). isNatureCondition nv c"
          "\<forall>(t', cfg') \<in> set pre. \<forall>c \<in> set (conditions cfg'). \<not> isNatureCondition nv c"
        by blast
      with nm show "\<exists>pre cfg' post. (tabId, cfg) # rest = pre @ (t, cfg') # post
          \<and> (\<exists>c \<in> set (conditions cfg'). isNatureCondition nv c)
          \<and> (\<forall>(t', cfg') \<in> set pre. \<forall>c \<in> set (conditions cfg'). \<not> isNatureCondition nv c)"
        by (intro exI [of _ "(tabId, cfg) # pre"] exI [of _ cfg'] exI [of _ post]) simp
    next
      assume "\<exists>pre cfg' post. (tabId, cfg) # rest = pre @ (t, cfg') # post
          \<and> (\<exists>c \<in> set (conditions cfg'). isNatureCondition nv c)
          \<and> (\<forall>(t', cfg') \<in> set pre. \<forall>c \<in> set (conditions cfg'). \<not> isNatureCondition nv c)"
      then obtain pre cfg' post where d: "(tabId, cfg) # rest = pre @ (t, cfg') # post"
        and m: "\<exists>c \<in> set (conditions cfg'). isNatureCondition nv c"
        and p: "\<forall>(t', cfg') \<in> set pre. \<forall>c \<in> set (conditions cfg'). \<not> isNatureCondition nv c"
        by blast
      obtain es where pre: "pre = (tabId, cfg) # es"
      proof (cases pre)
        case Nil
        with d have "cfg' = cfg" by simp
        with m nm show ?thesis by blast
      next
        case (Cons e es)
        with d that show ?thesis by simp
      qed
      with d have "rest = es @ (t, cfg') # post" by simp
      moreover from p pre
      have "\<forall>(t', cfg') \<in> set es. \<forall>c \<in> set (conditions cfg'). \<not> isNatureCondition nv c" by simp
      ultimately have "scanTabConfig nv rest = Some t" using 2 False m by blast
      with False show "scanTabConfig nv ((tabId, cfg) # rest) = Some t" by simp
    qed
  qed
qed


lemma scanCatalog_None:
  "scanCatalog nv docs = None \<longleftrightarrow> (\<forall>doc \<in> set docs. scanTabConfig nv (tabConfig doc) = None)"
  by (induction docs) (auto split: option.splits)

lemma scanCatalog_Some:
  "scanCatalog nv docs = Some t
   \<longleftrightarrow> (\<exists>pre doc post. docs = pre @ doc # post
          \<and> scanTabConfig nv (tabConfig doc) = Some t
          \<and> (\<forall>d \<in> set pre. scanTabConfig nv (tabConfig d) = None))"
proof (induction docs)
  case Nil
  then show ?case by simp
next
  case (Cons doc rest)
  show ?case
  proof (cases "scanTabConfig nv (tabConfig doc)")
    case None
    show ?thesis
    proof
      assume "scanCatalog nv (doc # rest) = Some t"
      with None have "scanCatalog nv rest = Some t" by simp
      with Cons obtain pre d post where "rest = pre @ d # post"
        "scanTabConfig nv (tabConfig d) = Some t"
        "\<forall>d \<in> set pre. scanTabConfig nv (tabConfig d) = None" by blast
      with None show "\<exists>pre d post. doc # rest = pre @ d # post
          \<and> scanTabConfig nv (tabConfig d) = Some t
          \<and> (\<forall>d \<in> set pre. scanTabConfig nv (tabConfig d) = None)"
        by (intro exI [of _ "doc # pre"] exI [of _ d] exI [of _ post]) simp
    next
      assume "\<exists>pre d post. doc # rest = pre @ d # post
          \<and> scanTabConfig nv (tabConfig d) = Some t
          \<and> (\<forall>d \<in> set pre. scanTabConfig nv (tabConfig d) = None)"
      then obtain pre d post where e: "doc # rest = pre @ d # post"
        and m: "scanTabConfig nv (tabConfig d) = Some t"
        and p: "\<forall>d \<in> set pre. scanTabConfig nv (tabConfig d) = None" by blast
      obtain es where pre: "pre = doc # es"
      proof (cases pre)
        case Nil
        with e have "d = doc" by simp
        with m None show ?thesis by simp
      next
        case (Cons x xs)
        with e that show ?thesis by simp
      qed
      with e have "rest = es @ d # post" by simp
      moreover from p pre have "\<forall>d \<in> set es. scanTabConfig nv (tabConfig d) = None" by simp
      ultimately have "scanCatalog nv rest = Some t" using Cons m by blast
      with None show "scanCatalog nv (doc # rest) = Some t" by simp
    qed
  next
    case (Some u)
    show ?thesis
    proof
      assume "scanCatalog nv (doc # rest) = Some t"
      with Some have "u = t" by simp
      with Some show "\<exists>pre d post. doc # rest = pre @ d # post
          \<and> scanTabConfig nv (tabConfig d) = Some t
          \<and> (\<forall>d \<in> set pre. scanTabConfig nv (tabConfig d) = None)"
        by (intro exI [of _ "[]"] exI [of _ doc] exI [of _ rest]) simp
    next
      assume "\<exists>pre d post. doc # rest = pre @ d # post
          \<and> scanTabConfig nv (tabConfig d) = Some t
          \<and> (\<forall>d \<in> set pre. scanTabConfig nv (tabConfig d) = None)"
      then obtain pre d post where e: "doc # rest = pre @ d # post"
        and m: "scanTabConfig nv (tabConfig d) = Some t"
        and p: "\<forall>d \<in> set pre. scanTabConfig nv (tabConfig d) = None" by blast
      have "pre = []"
      proof (cases pre)
        case Nil then show ?thesis .
      next
        case (Cons x xs)
        with e have "x = doc" by simp
        with Cons p Some show ?thesis by simp
      qed
      with e m have "scanTabConfig nv (tabConfig doc) = Some t" by simp
      then show "scanCatalog nv (doc # rest) = Some t" by simp
    qed
  qed
qed

lemma getTabValue_mem: "getTabValue ts = Some t \<Longrightarrow> t \<in> set (tabsOf ts)"
  by (cases ts rule: getTabValue.cases) auto

lemma flat_router_None:
  "natureDemandeValue = [] \<or> (\<forall>doc \<in> set docs. \<not> isMatchingDoc (normalizeStr natureDemandeValue) doc)
   \<Longrightarrow> getTabForNatureDemandeFlat docs natureDemandeValue = None"
proof -
  assume a: "natureDemandeValue = []
             \<or> (\<forall>doc \<in> set docs. \<not> isMatchingDoc (normalizeStr natureDemandeValue) doc)"
  show ?thesis
  proof (cases "natureDemandeValue = []")
    case True then show ?thesis by (simp add: getTabForNatureDemandeFlat_def)
  next
    case False
    with a have "filter (isMatchingDoc (normalizeStr natureDemandeValue)) docs = []"
      by (simp add: filter_empty_conv)
    then show ?thesis by (simp add: getTabForNatureDemandeFlat_def Let_def)
  qed
qed

lemma docToUse_mem: "first \<in> set ms \<Longrightarrow> docToUse ms first \<in> set ms"
proof (cases "find hasSingleCondition ms")
  case None
  assume "first \<in> set ms"
  with None show ?thesis by (simp add: docToUse_def)
next
  case (Some d)
  then obtain i where "i < length ms" "d = ms ! i" by (auto simp: find_Some_iff)
  then have "d \<in> set ms" by (simp only: nth_mem)
  with Some show ?thesis by (simp add: docToUse_def)
qed

lemma tabOfDocToUse_Some:
  "tabOfDocToUse nv ms d = Some t
   \<Longrightarrow> t \<in> set (tabsOf (flatTab d)) \<or> t = ''naturalisation_mariage'' \<or> t = ''decret''"
  by (auto simp: tabOfDocToUse_def split: TabSpec.splits if_splits dest: getTabValue_mem)

lemma find_first:
  "P d \<Longrightarrow> \<forall>x \<in> set pre. \<not> P x \<Longrightarrow> find P (pre @ d # post) = Some d"
  by (induction pre) auto

lemma flat_router_single:
  assumes "v \<noteq> []"
    and "filter (isMatchingDoc (normalizeStr v)) fcfg = pre @ d # post"
    and "hasSingleCondition d" "\<forall>x \<in> set pre. \<not> hasSingleCondition x"
  shows "getTabForNatureDemandeFlat fcfg v = tabOfDocToUse (normalizeStr v) (pre @ d # post) d"
proof -
  have f: "find hasSingleCondition (pre @ d # post) = Some d"
    using assms(3,4) by (rule find_first)
  obtain first others where m: "pre @ d # post = first # others" by (cases pre) auto
  have "docToUse (first # others) first = d"
    using f by (simp add: docToUse_def m)
  then show ?thesis
    using assms(1) by (simp add: getTabForNatureDemandeFlat_def Let_def assms(2) m)
qed

lemma flat_router_first:
  assumes "v \<noteq> []"
    and "filter (isMatchingDoc (normalizeStr v)) fcfg = first # others"
    and "\<forall>x \<in> set (first # others). \<not> hasSingleCondition x"
  shows "getTabForNatureDemandeFlat fcfg v = tabOfDocToUse (normalizeStr v) (first # others) first"
proof -
  have "find hasSingleCondition (first # others) = None"
    using assms(3) by (simp add: find_None_iff)
  then have "docToUse (first # others) first = first" by (simp add: docToUse_def)
  then show ?thesis
    using assms(1) by (simp add: getTabForNatureDemandeFlat_def Let_def assms(2))
qed

lemma hasSingleCondition_iff:
  "hasSingleCondition fdoc
   \<longleftrightarrow> (\<exists>cpre c cpost. flatConditions fdoc = cpre @ c # cpost
          \<and> property c = ''sous_categorie'' \<and> operator c = ''equals''
          \<and> (\<forall>x \<in> set cpre \<union> set cpost.
                \<not> (property x = ''sous_categorie'' \<and> operator x = ''equals'')))"
  (is "_ \<longleftrightarrow> ?R")
proof
  let ?P = "\<lambda>c. property c = ''sous_categorie'' \<and> operator c = ''equals''"
  assume "hasSingleCondition fdoc"
  then have "length (filter ?P (flatConditions fdoc)) = Suc 0"
    by (simp add: hasSingleCondition_def)
  then obtain c where "filter ?P (flatConditions fdoc) = [c]"
    by (auto simp: length_Suc_conv)
  then obtain us vs where d: "flatConditions fdoc = us @ c # vs" "\<forall>u \<in> set us. \<not> ?P u"
      "?P c" "[] = filter ?P vs"
    using filter_eq_ConsD [of ?P "flatConditions fdoc" c "[]"] by blast
  from d(4) have "filter ?P vs = []" by simp
  then have "\<forall>v \<in> set vs. \<not> ?P v" unfolding filter_empty_conv .
  with d(1-3) show ?R by blast
next
  let ?P = "\<lambda>c. property c = ''sous_categorie'' \<and> operator c = ''equals''"
  assume ?R
  then obtain cpre c cpost where d: "flatConditions fdoc = cpre @ c # cpost" "?P c"
      "\<forall>x \<in> set cpre \<union> set cpost. \<not> ?P x"
    by blast
  from d(3) have "filter ?P cpre = []" "filter ?P cpost = []"
    by (simp_all add: filter_empty_conv)
  with d(1,2) show "hasSingleCondition fdoc" by (simp add: hasSingleCondition_def)
qed

lemma tabOfDocToUse_one: "flatTab fd = OneTab t1 \<Longrightarrow> tabOfDocToUse nv ms fd = Some t1"
  by (simp add: tabOfDocToUse_def)

lemma tabOfDocToUse_none: "flatTab fd = TabArray [] \<Longrightarrow> tabOfDocToUse nv ms fd = None"
  by (simp add: tabOfDocToUse_def)

lemma tabOfDocToUse_single: "flatTab fd = TabArray [t1] \<Longrightarrow> tabOfDocToUse nv ms fd = Some t1"
  by (simp add: tabOfDocToUse_def)

lemma tabOfDocToUse_several:
  "flatTab fd = TabArray (t1 # t2 # ts) \<Longrightarrow>
   tabOfDocToUse nv ms fd =
     (if (\<exists>x \<in> set ms. ''naturalisation_mariage'' \<in> set (tabsOf (flatTab x))
                       \<and> ''decret'' \<notin> set (tabsOf (flatTab x)))
         \<and> includesStr (toLowerCase nv) ''naturalisation''
      then Some ''naturalisation_mariage''
      else if includesStr (toLowerCase nv) (CHR ''d'' # CHR 0xE9 # ''cret'')
              \<or> includesStr (toLowerCase nv) ''decret''
      then Some ''decret''
      else Some t1)"
  by (auto simp: tabOfDocToUse_def find_None_iff isNaturalisationDoc_def)

lemma router_None:
  "getTabForNatureDemande cfg v = None
   \<longleftrightarrow> v = [] \<or> (\<forall>doc \<in> set cfg. \<forall>(t, tc) \<in> set (tabConfig doc).
                    \<forall>c \<in> set (conditions tc). \<not> isNatureCondition (normalizeStr v) c)"
  by (simp add: getTabForNatureDemande_def scanCatalog_None scanTabConfig_None)

lemma router_Some:
  "getTabForNatureDemande cfg v = Some t
   \<longleftrightarrow> v \<noteq> [] \<and> (\<exists>pre doc post tpre tc tpost.
          cfg = pre @ doc # post \<and> tabConfig doc = tpre @ (t, tc) # tpost
          \<and> (\<exists>c \<in> set (conditions tc). isNatureCondition (normalizeStr v) c)
          \<and> (\<forall>(t', tc') \<in> set tpre.
                \<forall>c \<in> set (conditions tc'). \<not> isNatureCondition (normalizeStr v) c)
          \<and> (\<forall>d \<in> set pre. \<forall>(t', tc') \<in> set (tabConfig d).
                \<forall>c \<in> set (conditions tc'). \<not> isNatureCondition (normalizeStr v) c))"
proof (cases "v = []")
  case True
  then show ?thesis by (simp add: getTabForNatureDemande_def)
next
  case False
  then have "getTabForNatureDemande cfg v = Some t
             \<longleftrightarrow> scanCatalog (normalizeStr v) cfg = Some t"
    by (simp add: getTabForNatureDemande_def)
  also have "\<dots> \<longleftrightarrow> (\<exists>pre doc post tpre tc tpost.
          cfg = pre @ doc # post \<and> tabConfig doc = tpre @ (t, tc) # tpost
          \<and> (\<exists>c \<in> set (conditions tc). isNatureCondition (normalizeStr v) c)
          \<and> (\<forall>(t', tc') \<in> set tpre.
                \<forall>c \<in> set (conditions tc'). \<not> isNatureCondition (normalizeStr v) c)
          \<and> (\<forall>d \<in> set pre. \<forall>(t', tc') \<in> set (tabConfig d).
                \<forall>c \<in> set (conditions tc'). \<not> isNatureCondition (normalizeStr v) c))"
    unfolding scanCatalog_Some scanTabConfig_Some scanTabConfig_None by blast
  finally show ?thesis using False by simp
qed

text \<open>
  C7, as stated, fails: the router has no preference for a document that carries the
  category condition alone. In both catalogs below the second document carries the
  category condition alone and the first carries it with a second predicate; both
  versions of the router return the view of the first.
\<close>

theorem router_no_preference_counterexample:
  "getConditionsForTab (ambiguousCatalog ! 1) ''decret''
     = [\<lparr>property = ''sous_categorie'', operator = ''equals'', value = ''Decret''\<rparr>]
   \<and> length (getConditionsForTab (ambiguousCatalog ! 0) ''fraterie'') = 2
   \<and> getTabForNatureDemande ambiguousCatalog ''Decret'' = Some ''fraterie''
   \<and> flatConditions (ambiguousFlatCatalog ! 1)
     = [\<lparr>property = ''sous_categorie'', operator = ''equals'', value = ''Decret''\<rparr>]
   \<and> length (flatConditions (ambiguousFlatCatalog ! 0)) = 2
   \<and> getTabForNatureDemandeFlat ambiguousFlatCatalog ''Decret'' = Some ''fraterie''"
  unfolding ambiguousCatalog_def ambiguousFlatCatalog_def by code_simp

text \<open>
  C7, amended. A category condition for a value is a condition on \<open>sous_categorie\<close> with
  operator \<open>equals\<close> whose value equals it, both trimmed and whitespace-collapsed.

  The router scans the catalog in order, and each document's views in order; it returns
  the view hosting the first category condition for the value, with no preference among
  candidates and no substring heuristics, and null iff the value is empty or nothing
  matches.

  The router of the flat catalog returns null when the value is empty or no document
  carries a category condition for it. Otherwise, among the documents that carry one,
  in catalog order, it takes the first that has exactly one condition on \<open>sous_categorie\<close>
  with operator \<open>equals\<close> (for any value, and whatever its other conditions), and the
  first of all when there is none. A document with one view gives that view and a
  document with an empty list of views gives null. For a document with several views
  the substring heuristics come first: \<open>naturalisation_mariage\<close> when the value contains
  \<open>naturalisation\<close> and some matching document lists \<open>naturalisation_mariage\<close> and not
  \<open>decret\<close>; else \<open>decret\<close> when the value contains \<open>decret\<close>, accented or not; else the
  first view of the document.
\<close>

theorem view_router_first_match:
  "(getTabForNatureDemande cfg v = None
     \<longleftrightarrow> v = [] \<or> (\<forall>doc \<in> set cfg. \<forall>(t, tc) \<in> set (tabConfig doc).
                     \<forall>c \<in> set (conditions tc). \<not> isNatureCondition (normalizeStr v) c))
   \<and> (getTabForNatureDemande cfg v = Some t
     \<longleftrightarrow> v \<noteq> [] \<and> (\<exists>pre doc post tpre tc tpost.
          cfg = pre @ doc # post \<and> tabConfig doc = tpre @ (t, tc) # tpost
          \<and> (\<exists>c \<in> set (conditions tc). isNatureCondition (normalizeStr v) c)
          \<and> (\<forall>(t', tc') \<in> set tpre.
                \<forall>c \<in> set (conditions tc'). \<not> isNatureCondition (normalizeStr v) c)
          \<and> (\<forall>d \<in> set pre. \<forall>(t', tc') \<in> set (tabConfig d).
                \<forall>c \<in> set (conditions tc'). \<not> isNatureCondition (normalizeStr v) c)))
   \<and> (isNatureCondition nv c
     \<longleftrightarrow> property c = ''sous_categorie'' \<and> operator c = ''equals''
         \<and> normalizeStr (value c) = nv)
   \<and> (isMatchingDoc nv fdoc \<longleftrightarrow> (\<exists>c \<in> set (flatConditions fdoc). isNatureCondition nv c))
   \<and> (hasSingleCondition fdoc
     \<longleftrightarrow> (\<exists>cpre c cpost. flatConditions fdoc = cpre @ c # cpost
          \<and> property c = ''sous_categorie'' \<and> operator c = ''equals''
          \<and> (\<forall>x \<in> set cpre \<union> set cpost.
                \<not> (property x = ''sous_categorie'' \<and> operator x = ''equals''))))
   \<and> (v = [] \<or> (\<forall>doc \<in> set fcfg. \<not> isMatchingDoc (normalizeStr v) doc)
       \<longrightarrow> getTabForNatureDemandeFlat fcfg v = None)
   \<and> (v \<noteq> [] \<and> filter (isMatchingDoc (normalizeStr v)) fcfg = fpre @ fd # fpost
        \<and> hasSingleCondition fd \<and> (\<forall>x \<in> set fpre. \<not> hasSingleCondition x)
       \<longrightarrow> getTabForNatureDemandeFlat fcfg v
           = tabOfDocToUse (normalizeStr v) (fpre @ fd # fpost) fd)
   \<and> (v \<noteq> [] \<and> filter (isMatchingDoc (normalizeStr v)) fcfg = first # others
        \<and> (\<forall>x \<in> set (first # others). \<not> hasSingleCondition x)
       \<longrightarrow> getTabForNatureDemandeFlat fcfg v
           = tabOfDocToUse (normalizeStr v) (first # others) first)
   \<and> (flatTab fdoc = OneTab t1 \<longrightarrow> tabOfDocToUse nv ms fdoc = Some t1)
   \<and> (flatTab fdoc = TabArray [] \<longrightarrow> tabOfDocToUse nv ms fdoc = None)
   \<and> (flatTab fdoc = TabArray [t1] \<longrightarrow> tabOfDocToUse nv ms fdoc = Some t1)
   \<and> (flatTab fdoc = TabArray (t1 # t2 # ts) \<longrightarrow>
       tabOfDocToUse nv ms fdoc =
         (if (\<exists>x \<in> set ms. ''naturalisation_mariage'' \<in> set (tabsOf (flatTab x))
                           \<and> ''decret'' \<notin> set (tabsOf (flatTab x)))
             \<and> includesStr (toLowerCase nv) ''naturalisation''
          then Some ''naturalisation_mariage''
          else if includesStr (toLowerCase nv) (CHR ''d'' # CHR 0xE9 # ''cret'')
                  \<or> includesStr (toLowerCase nv) ''decret''
          then Some ''decret''
          else Some t1))"
proof -
  have c1: "getTabForNatureDemande cfg v = None
     \<longleftrightarrow> v = [] \<or> (\<forall>doc \<in> set cfg. \<forall>(t, tc) \<in> set (tabConfig doc).
                     \<forall>c \<in> set (conditions tc). \<not> isNatureCondition (normalizeStr v) c)"
    by (rule router_None)
  have c2: "getTabForNatureDemande cfg v = Some t
     \<longleftrightarrow> v \<noteq> [] \<and> (\<exists>pre doc post tpre tc tpost.
          cfg = pre @ doc # post \<and> tabConfig doc = tpre @ (t, tc) # tpost
          \<and> (\<exists>c \<in> set (conditions tc). isNatureCondition (normalizeStr v) c)
          \<and> (\<forall>(t', tc') \<in> set tpre.
                \<forall>c \<in> set (conditions tc'). \<not> isNatureCondition (normalizeStr v) c)
          \<and> (\<forall>d \<in> set pre. \<forall>(t', tc') \<in> set (tabConfig d).
                \<forall>c \<in> set (conditions tc'). \<not> isNatureCondition (normalizeStr v) c))"
    by (rule router_Some)
  have c3: "isNatureCondition nv c
     \<longleftrightarrow> property c = ''sous_categorie'' \<and> operator c = ''equals''
         \<and> normalizeStr (value c) = nv"
    by (simp add: isNatureCondition_def)
  have c4: "isMatchingDoc nv fdoc \<longleftrightarrow> (\<exists>c \<in> set (flatConditions fdoc). isNatureCondition nv c)"
    by (auto simp: isMatchingDoc_def list_ex_iff)
  have c5: "hasSingleCondition fdoc
     \<longleftrightarrow> (\<exists>cpre c cpost. flatConditions fdoc = cpre @ c # cpost
          \<and> property c = ''sous_categorie'' \<and> operator c = ''equals''
          \<and> (\<forall>x \<in> set cpre \<union> set cpost.
                \<not> (property x = ''sous_categorie'' \<and> operator x = ''equals'')))"
    by (rule hasSingleCondition_iff)
  have c6: "v = [] \<or> (\<forall>doc \<in> set fcfg. \<not> isMatchingDoc (normalizeStr v) doc)
       \<longrightarrow> getTabForNatureDemandeFlat fcfg v = None"
    using flat_router_None [of v fcfg] by blast
  have c7: "v \<noteq> [] \<and> filter (isMatchingDoc (normalizeStr v)) fcfg = fpre @ fd # fpost
        \<and> hasSingleCondition fd \<and> (\<forall>x \<in> set fpre. \<not> hasSingleCondition x)
       \<longrightarrow> getTabForNatureDemandeFlat fcfg v
           = tabOfDocToUse (normalizeStr v) (fpre @ fd # fpost) fd"
    using flat_router_single [of v fcfg fpre fd fpost] by blast
  have c8: "v \<noteq> [] \<and> filter (isMatchingDoc (normalizeStr v)) fcfg = first # others
        \<and> (\<forall>x \<in> set (first # others). \<not> hasSingleCondition x)
       \<longrightarrow> getTabForNatureDemandeFlat fcfg v
           = tabOfDocToUse (normalizeStr v) (first # others) first"
    using flat_router_first [of v fcfg first others] by blast
  have c9: "flatTab fdoc = OneTab t1 \<longrightarrow> tabOfDocToUse nv ms fdoc = Some t1"
    by (simp add: tabOfDocToUse_one)
  have c10: "flatTab fdoc = TabArray [] \<longrightarrow> tabOfDocToUse nv ms fdoc = None"
    by (simp add: tabOfDocToUse_none)
  have c11: "flatTab fdoc = TabArray [t1] \<longrightarrow> tabOfDocToUse nv ms fdoc = Some t1"
    by (simp add: tabOfDocToUse_single)
  have c12: "flatTab fdoc = TabArray (t1 # t2 # ts) \<longrightarrow>
       tabOfDocToUse nv ms fdoc =
         (if (\<exists>x \<in> set ms. ''naturalisation_mariage'' \<in> set (tabsOf (flatTab x))
                           \<and> ''decret'' \<notin> set (tabsOf (flatTab x)))
             \<and> includesStr (toLowerCase nv) ''naturalisation''
          then Some ''naturalisation_mariage''
          else if includesStr (toLowerCase nv) (CHR ''d'' # CHR 0xE9 # ''cret'')
                  \<or> includesStr (toLowerCase nv) ''decret''
          then Some ''decret''
          else Some t1)"
    using tabOfDocToUse_several [of fdoc t1 t2 ts nv ms] by blast
  from c1 c2 c3 c4 c5 c6 c7 c8 c9 c10 c11 c12 show ?thesis by (intro conjI)
qed

theorem view_router_first_match_witness:
  "getTabForNatureDemande [exampleConfig] ''Inconnu'' = None
   \<and> getTabForNatureDemandeFlat ambiguousFlatCatalog ''Inconnu'' = None
   \<and> getTabForNatureDemande [exampleConfig] [] = None
   \<and> getTabForNatureDemande [exampleConfig] '' Fratrie  '' = Some ''fraterie''
   \<and> getTabForNatureDemandeFlat preferenceFlatCatalog ''Decret'' = Some ''decret''"
proof -
  have a: "\<forall>doc \<in> set [exampleConfig]. \<forall>(t, tc) \<in> set (tabConfig doc).
             \<forall>c \<in> set (conditions tc). \<not> isNatureCondition (normalizeStr ''Inconnu'') c"
    unfolding example_simps by code_simp
  have b: "\<forall>doc \<in> set ambiguousFlatCatalog. \<not> isMatchingDoc (normalizeStr ''Inconnu'') doc"
    unfolding ambiguousFlatCatalog_def by code_simp
  from view_router_first_match [where cfg = "[exampleConfig]" and v = "''Inconnu''"]
  have "getTabForNatureDemande [exampleConfig] ''Inconnu'' = None
     \<longleftrightarrow> ''Inconnu'' = [] \<or> (\<forall>doc \<in> set [exampleConfig]. \<forall>(t, tc) \<in> set (tabConfig doc).
                     \<forall>c \<in> set (conditions tc). \<not> isNatureCondition (normalizeStr ''Inconnu'') c)"
    by (rule conjunct1)
  with a have 1: "getTabForNatureDemande [exampleConfig] ''Inconnu'' = None"
    by blast
  from view_router_first_match [where v = "''Inconnu''" and fcfg = ambiguousFlatCatalog,
    THEN conjunct2, THEN conjunct2, THEN conjunct2, THEN conjunct2, THEN conjunct2, THEN conjunct1]
  have "''Inconnu'' = []
        \<or> (\<forall>doc \<in> set ambiguousFlatCatalog. \<not> isMatchingDoc (normalizeStr ''Inconnu'') doc)
       \<longrightarrow> getTabForNatureDemandeFlat ambiguousFlatCatalog ''Inconnu'' = None" .
  with b have 2: "getTabForNatureDemandeFlat ambiguousFlatCatalog ''Inconnu'' = None"
    by blast
  from view_router_first_match [where cfg = "[exampleConfig]" and v = "[]"]
  have "getTabForNatureDemande [exampleConfig] [] = None
     \<longleftrightarrow> ([]::string) = [] \<or> (\<forall>doc \<in> set [exampleConfig]. \<forall>(t, tc) \<in> set (tabConfig doc).
                     \<forall>c \<in> set (conditions tc). \<not> isNatureCondition (normalizeStr []) c)"
    by (rule conjunct1)
  then have 3: "getTabForNatureDemande [exampleConfig] [] = None"
    by blast
  let ?d = "\<lparr>order = 1, conditions =
            [\<lparr>property = ''sous_categorie'', operator = ''equals'', value = ''Decret''\<rparr>,
             \<lparr>property = ''domicile__'', operator = ''equals'', value = ''France''\<rparr>,
             \<lparr>property = ''domicile__'', operator = ''equals'', value = ''Maroc''\<rparr>]\<rparr>"
  let ?f = "\<lparr>order = 2, conditions =
            [\<lparr>property = ''sous_categorie'', operator = ''equals'', value = ''Fratrie''\<rparr>]\<rparr>"
  have c: "[exampleConfig] = [] @ exampleConfig # []
          \<and> tabConfig exampleConfig = [(''decret'', ?d)] @ (''fraterie'', ?f) # []
          \<and> (\<exists>c \<in> set (conditions ?f). isNatureCondition (normalizeStr '' Fratrie  '') c)
          \<and> (\<forall>(t', tc') \<in> set [(''decret'', ?d)].
                \<forall>c \<in> set (conditions tc'). \<not> isNatureCondition (normalizeStr '' Fratrie  '') c)
          \<and> (\<forall>d \<in> set []. \<forall>(t', tc') \<in> set (tabConfig d).
                \<forall>c \<in> set (conditions tc'). \<not> isNatureCondition (normalizeStr '' Fratrie  '') c)"
    unfolding example_simps by code_simp
  have ne: "'' Fratrie  '' \<noteq> []" by simp
  have e: "\<exists>pre doc post tpre tc tpost.
          [exampleConfig] = pre @ doc # post \<and> tabConfig doc = tpre @ (''fraterie'', tc) # tpost
          \<and> (\<exists>c \<in> set (conditions tc). isNatureCondition (normalizeStr '' Fratrie  '') c)
          \<and> (\<forall>(t', tc') \<in> set tpre.
                \<forall>c \<in> set (conditions tc'). \<not> isNatureCondition (normalizeStr '' Fratrie  '') c)
          \<and> (\<forall>d \<in> set pre. \<forall>(t', tc') \<in> set (tabConfig d).
                \<forall>c \<in> set (conditions tc'). \<not> isNatureCondition (normalizeStr '' Fratrie  '') c)"
    by (rule exI [of _ "[]"], rule exI [of _ exampleConfig], rule exI [of _ "[]"],
        rule exI [of _ "[(''decret'', ?d)]"], rule exI [of _ ?f], rule exI [of _ "[]"]) (rule c)
  from view_router_first_match
    [where cfg = "[exampleConfig]" and v = "'' Fratrie  ''" and t = "''fraterie''"]
  have "getTabForNatureDemande [exampleConfig] '' Fratrie  '' = Some ''fraterie''
     \<longleftrightarrow> '' Fratrie  '' \<noteq> [] \<and> (\<exists>pre doc post tpre tc tpost.
          [exampleConfig] = pre @ doc # post \<and> tabConfig doc = tpre @ (''fraterie'', tc) # tpost
          \<and> (\<exists>c \<in> set (conditions tc). isNatureCondition (normalizeStr '' Fratrie  '') c)
          \<and> (\<forall>(t', tc') \<in> set tpre.
                \<forall>c \<in> set (conditions tc'). \<not> isNatureCondition (normalizeStr '' Fratrie  '') c)
          \<and> (\<forall>d \<in> set pre. \<forall>(t', tc') \<in> set (tabConfig d).
                \<forall>c \<in> set (conditions tc'). \<not> isNatureCondition (normalizeStr '' Fratrie  '') c))"
    by (rule conjunct1 [OF conjunct2])
  with e ne
  have 4: "getTabForNatureDemande [exampleConfig] '' Fratrie  '' = Some ''fraterie''"
    by (simp only: simp_thms)
  let ?A = "preferenceFlatCatalog ! 0"
  let ?B = "preferenceFlatCatalog ! 1"
  let ?nv = "normalizeStr ''Decret''"
  note inst = view_router_first_match
    [where v = "''Decret''" and fcfg = preferenceFlatCatalog and fpre = "[?A]" and fd = ?B
       and fpost = "[]" and fdoc = ?B and nv = ?nv and ms = "[?A] @ ?B # []"
       and ?t1.0 = "''naturalisation_mariage''" and ?t2.0 = "''decret''" and ts = "[]"]
  have m: "filter (isMatchingDoc ?nv) preferenceFlatCatalog = [?A] @ ?B # []"
    unfolding preferenceFlatCatalog_def by code_simp
  have s1: "hasSingleCondition ?B"
    unfolding preferenceFlatCatalog_def by code_simp
  have s2: "\<forall>x \<in> set [?A]. \<not> hasSingleCondition x"
    unfolding preferenceFlatCatalog_def by code_simp
  have tb: "flatTab ?B = TabArray (''naturalisation_mariage'' # ''decret'' # [])"
    unfolding preferenceFlatCatalog_def by simp
  have nn: "\<not> (\<exists>x \<in> set ([?A] @ ?B # []). ''naturalisation_mariage'' \<in> set (tabsOf (flatTab x))
                           \<and> ''decret'' \<notin> set (tabsOf (flatTab x)))"
    unfolding preferenceFlatCatalog_def by code_simp
  have dc: "includesStr (toLowerCase ?nv) ''decret''" by code_simp
  have nev: "''Decret'' \<noteq> []" by simp
  from inst [THEN conjunct2, THEN conjunct2, THEN conjunct2, THEN conjunct2, THEN conjunct2, THEN conjunct2, THEN conjunct1] have "''Decret'' \<noteq> []
        \<and> filter (isMatchingDoc ?nv) preferenceFlatCatalog = [?A] @ ?B # []
        \<and> hasSingleCondition ?B \<and> (\<forall>x \<in> set [?A]. \<not> hasSingleCondition x)
       \<longrightarrow> getTabForNatureDemandeFlat preferenceFlatCatalog ''Decret''
           = tabOfDocToUse ?nv ([?A] @ ?B # []) ?B" .
  with nev m s1 s2 have r: "getTabForNatureDemandeFlat preferenceFlatCatalog ''Decret''
           = tabOfDocToUse ?nv ([?A] @ ?B # []) ?B"
    by blast
  from inst [THEN conjunct2, THEN conjunct2, THEN conjunct2, THEN conjunct2, THEN conjunct2, THEN conjunct2, THEN conjunct2, THEN conjunct2, THEN conjunct2, THEN conjunct2, THEN conjunct2] have "flatTab ?B = TabArray (''naturalisation_mariage'' # ''decret'' # []) \<longrightarrow>
       tabOfDocToUse ?nv ([?A] @ ?B # []) ?B =
         (if (\<exists>x \<in> set ([?A] @ ?B # []). ''naturalisation_mariage'' \<in> set (tabsOf (flatTab x))
                           \<and> ''decret'' \<notin> set (tabsOf (flatTab x)))
             \<and> includesStr (toLowerCase ?nv) ''naturalisation''
          then Some ''naturalisation_mariage''
          else if includesStr (toLowerCase ?nv) (CHR ''d'' # CHR 0xE9 # ''cret'')
                  \<or> includesStr (toLowerCase ?nv) ''decret''
          then Some ''decret''
          else Some ''naturalisation_mariage'')" .
  from this tb have "tabOfDocToUse ?nv ([?A] @ ?B # []) ?B =
         (if (\<exists>x \<in> set ([?A] @ ?B # []). ''naturalisation_mariage'' \<in> set (tabsOf (flatTab x))
                           \<and> ''decret'' \<notin> set (tabsOf (flatTab x)))
             \<and> includesStr (toLowerCase ?nv) ''naturalisation''
          then Some ''naturalisation_mariage''
          else if includesStr (toLowerCase ?nv) (CHR ''d'' # CHR 0xE9 # ''cret'')
                  \<or> includesStr (toLowerCase ?nv) ''decret''
          then Some ''decret''
          else Some ''naturalisation_mariage'')"
    by (rule mp)
  with nn dc r
  have 5: "getTabForNatureDemandeFlat preferenceFlatCatalog ''Decret'' = Some ''decret''"
    by (simp only: if_False if_True simp_thms)
  from 1 2 3 4 5 show ?thesis by (intro conjI)
qed

section \<open>Properties: the full-save write path\<close>









lemmas store_simps = rejectingStore_def driftedStore_def notFoundStore_def threeDocuments_def
lemma p0: "toProperties threeDocuments = [(''foo_required'', JStr ''true''), (''bar_required'', JStr ''true''), (''bar_provided'', JStr ''false'')]"
  by (simp add: threeDocuments_def)




end
